theory Spec2Isabelle
  imports Complex_Main "HOL-Library.Word"
begin

section \<open>The biquad unit (biquad.h, biquad.c)\<close>

text \<open>
  The C code computes on IEEE doubles. This development reads every \<^verbatim>\<open>double\<close> as a
  real number and every floating-point operation as the exact operation on the reals:
  rounding, infinities and NaN are outside the model. A pointer that the code tests
  against NULL is an \<open>option\<close>; a function that writes through a pointer returns the
  new content of the pointee.
\<close>

text \<open>The constants \<^verbatim>\<open>FLT_MIN_PLUS\<close> and \<^verbatim>\<open>FLT_MIN_MINUS\<close> of biquad.h.\<close>

definition FLT_MIN_PLUS :: real where
  "FLT_MIN_PLUS = 1175494351 / 10 ^ 47"

definition FLT_MIN_MINUS :: real where
  "FLT_MIN_MINUS = - (1175494351 / 10 ^ 47)"

text \<open>The struct \<^verbatim>\<open>BiQuad\<close>: five recurrence coefficients, two mix coefficients, four delays.\<close>

record BiQuad =
  a0 :: real
  a1 :: real
  a2 :: real
  b1 :: real
  b2 :: real
  c0 :: real
  d0 :: real
  xz1 :: real
  xz2 :: real
  yz1 :: real
  yz2 :: real

text \<open>\<^verbatim>\<open>biquad_flush_delays\<close>: a null pointer returns at once, otherwise the four delays are zeroed.\<close>

definition biquad_flush_delays :: "BiQuad option \<Rightarrow> BiQuad option" where
  "biquad_flush_delays bq =
     (case bq of
        None \<Rightarrow> None
      | Some b \<Rightarrow> Some (b\<lparr>xz1 := 0, xz2 := 0, yz1 := 0, yz2 := 0\<rparr>))"

text \<open>\<^verbatim>\<open>biquad_init\<close>: coefficients zeroed, full wet mix, then the delays are flushed.\<close>

definition biquad_init :: "BiQuad option \<Rightarrow> BiQuad option" where
  "biquad_init bq =
     (case bq of
        None \<Rightarrow> None
      | Some b \<Rightarrow>
          biquad_flush_delays
            (Some (b\<lparr>a0 := 0, a1 := 0, a2 := 0, b1 := 0, b2 := 0, c0 := 1, d0 := 0\<rparr>)))"

text \<open>
  The underflow check of \<^verbatim>\<open>biquad_process\<close> (biquad.c lines 46 to 51): two \<^verbatim>\<open>if\<close>
  statements in sequence, the second reading the value the first may have replaced.
\<close>

definition underflow_check :: "real \<Rightarrow> real" where
  "underflow_check yn =
     (let yn1 = (if yn > 0 \<and> yn < FLT_MIN_PLUS then 0 else yn)
      in if yn1 < 0 \<and> yn1 > FLT_MIN_MINUS then 0 else yn1)"

text \<open>
  The body of \<^verbatim>\<open>biquad_process\<close> past the null check (biquad.c lines 42 to 62), on
  the pointee: the difference equation with C's left-to-right association, the
  underflow check, the shuffle of the delays. It returns the sample and the unit.
\<close>

definition biquad_process_at :: "BiQuad \<Rightarrow> real \<Rightarrow> real \<times> BiQuad" where
  "biquad_process_at b input =
     (let yn = a0 b * input + a1 b * xz1 b + a2 b * xz2 b - b1 b * yz1 b - b2 b * yz2 b;
          yn = underflow_check yn;
          b = b\<lparr>yz2 := yz1 b\<rparr>;
          b = b\<lparr>yz1 := yn\<rparr>;
          b = b\<lparr>xz2 := xz1 b\<rparr>;
          b = b\<lparr>xz1 := input\<rparr>
      in (yn, b))"

text \<open>\<^verbatim>\<open>biquad_process\<close>: a null unit returns the input, otherwise the body above runs.\<close>

definition biquad_process :: "BiQuad option \<Rightarrow> real \<Rightarrow> real \<times> BiQuad option" where
  "biquad_process bq input =
     (case bq of
        None \<Rightarrow> (input, None)
      | Some b \<Rightarrow> (fst (biquad_process_at b input), Some (snd (biquad_process_at b input))))"

section \<open>The filter designers (hpf.c, lpf.c, parametric.c)\<close>

text \<open>
  \<^verbatim>\<open>calculate_butterworth_coefficients\<close> of hpf.c. \<^verbatim>\<open>M_PI\<close> is read as \<open>pi\<close>,
  \<^verbatim>\<open>tan\<close> and \<^verbatim>\<open>sqrt\<close> as the real functions. Each assignment through the pointer is
  one record update, in the source's order, so that a later line reads the
  coefficient an earlier line wrote.
\<close>

definition hpf_calculate_butterworth_coefficients ::
    "BiQuad option \<Rightarrow> real \<Rightarrow> real \<Rightarrow> BiQuad option" where
  "hpf_calculate_butterworth_coefficients bq sample_rate freq =
     (case bq of
        None \<Rightarrow> None
      | Some b \<Rightarrow>
          (let C = tan (pi * freq / sample_rate);
               C_squared = C * C;
               sqrt2 = sqrt 2;
               b = b\<lparr>a0 := 1 / (1 + sqrt2 * C + C_squared)\<rparr>;
               b = b\<lparr>a1 := - 2 * a0 b\<rparr>;
               b = b\<lparr>a2 := a0 b\<rparr>;
               b = b\<lparr>b1 := 2 * a0 b * (C_squared - 1)\<rparr>;
               b = b\<lparr>b2 := a0 b * (1 - sqrt2 * C + C_squared)\<rparr>;
               b = b\<lparr>c0 := 1\<rparr>;
               b = b\<lparr>d0 := 0\<rparr>
           in biquad_flush_delays (Some b)))"

text \<open>\<^verbatim>\<open>calculate_butterworth_coefficients\<close> of lpf.c.\<close>

definition lpf_calculate_butterworth_coefficients ::
    "BiQuad option \<Rightarrow> real \<Rightarrow> real \<Rightarrow> BiQuad option" where
  "lpf_calculate_butterworth_coefficients bq sample_rate freq =
     (case bq of
        None \<Rightarrow> None
      | Some b \<Rightarrow>
          (let C = 1 / tan (pi * freq / sample_rate);
               C_squared = C * C;
               sqrt2 = sqrt 2;
               b = b\<lparr>a0 := 1 / (1 + sqrt2 * C + C_squared)\<rparr>;
               b = b\<lparr>a1 := 2 * a0 b\<rparr>;
               b = b\<lparr>a2 := a0 b\<rparr>;
               b = b\<lparr>b1 := 2 * a0 b * (1 - C_squared)\<rparr>;
               b = b\<lparr>b2 := a0 b * (1 - sqrt2 * C + C_squared)\<rparr>;
               b = b\<lparr>c0 := 1\<rparr>;
               b = b\<lparr>d0 := 0\<rparr>
           in biquad_flush_delays (Some b)))"

text \<open>
  Lines 13 to 40 of \<^verbatim>\<open>calculate_parametric_coefficients\<close> (parametric.c): the
  intermediate values and the two branches. The test of line 26, \<^verbatim>\<open>gain >= 0.0\<close>,
  is the parameter \<open>boost\<close>, so that each branch can be evaluated at any gain.
  \<^verbatim>\<open>pow(10.0, x)\<close> is read as \<open>10 powr x\<close>.
\<close>

definition parametric_formulas ::
    "bool \<Rightarrow> BiQuad \<Rightarrow> real \<Rightarrow> real \<Rightarrow> real \<Rightarrow> real \<Rightarrow> BiQuad" where
  "parametric_formulas boost b sample_rate freq gain q =
     (let K = tan ((pi * freq) / sample_rate);
          V0 = 10 powr (gain / 20);
          K_squared = K * K;
          D0 = 1 + ((1 / q) * K) + K_squared;
          E0 = 1 + ((1 / (V0 * q)) * K) + K_squared;
          A = 1 + ((V0 / q) * K) + K_squared;
          B = 2 * (K_squared - 1);
          G = 1 - ((V0 / q) * K) + K_squared;
          D = 1 - ((1 / q) * K) + K_squared;
          E = 1 - ((1 / (V0 * q)) * K) + K_squared
      in if boost
         then b\<lparr>a0 := A / D0, a1 := B / D0, a2 := G / D0, b1 := B / D0, b2 := D / D0\<rparr>
         else b\<lparr>a0 := D0 / E0, a1 := B / E0, a2 := D / E0, b1 := B / E0, b2 := E / E0\<rparr>)"

text \<open>
  \<^verbatim>\<open>calculate_parametric_coefficients\<close>: the formulas, full wet mix, flushed delays.
  The definition follows the code wherever each division has a value: the sample rate
  is not zero, the tangent is not taken at its pole, and \<open>q\<close>, \<open>V0 q\<close> and the divisor
  of the branch taken are not zero. At the other inputs the code yields an infinity or
  NaN and the definition a number; the theorem on this function leaves them out.
\<close>

definition calculate_parametric_coefficients ::
    "BiQuad option \<Rightarrow> real \<Rightarrow> real \<Rightarrow> real \<Rightarrow> real \<Rightarrow> BiQuad option" where
  "calculate_parametric_coefficients bq sample_rate freq gain q =
     (case bq of
        None \<Rightarrow> None
      | Some b \<Rightarrow>
          (let b = parametric_formulas (gain \<ge> 0) b sample_rate freq gain q;
               b = b\<lparr>c0 := 1\<rparr>;
               b = b\<lparr>d0 := 0\<rparr>
           in biquad_flush_delays (Some b)))"

section \<open>The channel dispatcher (hpf.c, lpf.c, parametric.c)\<close>

text \<open>
  The struct \<^verbatim>\<open>AudioBuffer\<close> of audio_io.h. The pointer \<^verbatim>\<open>data\<close> and the field
  \<^verbatim>\<open>length\<close> are one list, absent when the pointer is null: the field \<^verbatim>\<open>length\<close> is the
  length of the list, so a buffer whose \<^verbatim>\<open>length\<close> exceeds its allocation has no
  counterpart here. An index of type \<^verbatim>\<open>size_t\<close> is a natural number; an array of doubles
  has fewer than \<open>2 ^ 61\<close> elements, so that \<^verbatim>\<open>i + 2\<close> never wraps.
\<close>

record AudioBuffer =
  data :: "real list option"
  sample_rate :: int
  channels :: int
  bit_depth :: int

text \<open>
  The filter structs, built without \<^verbatim>\<open>USE_MLIR\<close>. \<^verbatim>\<open>HPFFilter\<close> and
  \<^verbatim>\<open>LPFFilter\<close> have the same three fields; \<^verbatim>\<open>ParametricFilter\<close> has these three
  and two more.
\<close>

record HPFFilter =
  left :: BiQuad
  right :: BiQuad
  frequency :: real

type_synonym LPFFilter = HPFFilter

record ParametricFilter = HPFFilter +
  gain :: real
  q :: real

text \<open>
  The loop of \<^verbatim>\<open>hpf_process_channel\<close> (hpf.c lines 97 to 102; the same lines in lpf.c
  and parametric.c): counter \<open>i\<close>, the array updated in place, the mix coefficients
  read from the unit after the call.
\<close>

function channel_loop :: "BiQuad \<Rightarrow> real list \<Rightarrow> nat \<Rightarrow> BiQuad \<times> real list" where
  "channel_loop bq samples i =
     (if i < length samples then
        (let input = samples ! i;
             filtered = fst (biquad_process_at bq input);
             bq = snd (biquad_process_at bq input)
         in channel_loop bq (samples[i := filtered * c0 bq + input * d0 bq]) (Suc i))
      else (bq, samples))"
  by pat_completeness auto
termination
  by (relation "measure (\<lambda>(bq, samples, i). length samples - i)") auto

text \<open>
  \<^verbatim>\<open>hpf_process_channel\<close>, \<^verbatim>\<open>lpf_process_channel\<close> and
  \<^verbatim>\<open>parametric_process_channel\<close>: the same text up to the name of the struct, written
  once for every struct with the fields \<open>left\<close> and \<open>right\<close>. The arguments
  \<^verbatim>\<open>data\<close> and \<^verbatim>\<open>length\<close> are one list.
\<close>

definition process_channel ::
    "'a HPFFilter_scheme option \<Rightarrow> real list option \<Rightarrow> int
       \<Rightarrow> 'a HPFFilter_scheme option \<times> real list option" where
  "process_channel flt samples channel =
     (case flt of
        None \<Rightarrow> (flt, samples)
      | Some f \<Rightarrow>
          (case samples of
             None \<Rightarrow> (flt, samples)
           | Some d \<Rightarrow>
               (if channel = 0
                then (case channel_loop (left f) d 0 of
                        (l, d') \<Rightarrow> (Some (f\<lparr>left := l\<rparr>), Some d'))
                else (case channel_loop (right f) d 0 of
                        (r, d') \<Rightarrow> (Some (f\<lparr>right := r\<rparr>), Some d')))))"

text \<open>
  The stereo loop of \<^verbatim>\<open>hpf_process_buffer\<close> (hpf.c lines 164 to 177): the counter
  advances by two, the sample at \<open>i\<close> goes through the left unit, and the sample at
  \<open>i + 1\<close> through the right unit when \<open>i + 1\<close> is inside the buffer.
\<close>

function stereo_loop ::
    "BiQuad \<Rightarrow> BiQuad \<Rightarrow> real list \<Rightarrow> nat \<Rightarrow> BiQuad \<times> BiQuad \<times> real list" where
  "stereo_loop l r samples i =
     (if i < length samples then
        (let left_in = samples ! i;
             left_out = fst (biquad_process_at l left_in);
             l = snd (biquad_process_at l left_in);
             samples = samples[i := left_out * c0 l + left_in * d0 l]
         in if i + 1 < length samples then
              (let right_in = samples ! (i + 1);
                   right_out = fst (biquad_process_at r right_in);
                   r = snd (biquad_process_at r right_in);
                   samples = samples[i + 1 := right_out * c0 r + right_in * d0 r]
               in stereo_loop l r samples (i + 2))
            else stereo_loop l r samples (i + 2))
      else (l, r, samples))"
  by pat_completeness auto
termination
  by (relation "measure (\<lambda>(l, r, samples, i). length samples - i)") auto

text \<open>
  The conversions of \<^verbatim>\<open>int channel = i % buffer->channels;\<close> on an LP64 target: the
  \<^verbatim>\<open>int\<close> operand becomes a \<^verbatim>\<open>size_t\<close> (its value modulo \<open>2 ^ 64\<close>), and the
  \<^verbatim>\<open>size_t\<close> remainder becomes an \<^verbatim>\<open>int\<close> (its low 32 bits, signed). The remainder
  by zero is a fault of the program.
\<close>

datatype fault = DivisionByZero

definition size_t_of_int :: "int \<Rightarrow> nat" where
  "size_t_of_int n = nat (n mod 2 ^ 64)"

definition int_of_size_t :: "nat \<Rightarrow> int" where
  "int_of_size_t n = signed_take_bit 31 (int n)"

text \<open>The multi-channel loop of \<^verbatim>\<open>hpf_process_buffer\<close> (hpf.c lines 180 to 186).\<close>

function multi_loop ::
    "int \<Rightarrow> BiQuad \<Rightarrow> BiQuad \<Rightarrow> real list \<Rightarrow> nat \<Rightarrow> fault + BiQuad \<times> BiQuad \<times> real list" where
  "multi_loop chans l r samples i =
     (if i < length samples then
        (if size_t_of_int chans = 0 then Inl DivisionByZero
         else
           (let channel = int_of_size_t (i mod size_t_of_int chans);
                input = samples ! i
            in if channel mod 2 = 0 then
                 (let filtered = fst (biquad_process_at l input);
                      l = snd (biquad_process_at l input)
                  in multi_loop chans l r (samples[i := filtered * c0 l + input * d0 l]) (Suc i))
               else
                 (let filtered = fst (biquad_process_at r input);
                      r = snd (biquad_process_at r input)
                  in multi_loop chans l r (samples[i := filtered * c0 r + input * d0 r]) (Suc i))))
      else Inr (l, r, samples))"
  by pat_completeness auto
termination
  by (relation "measure (\<lambda>(chans, l, r, samples, i). length samples - i)") auto

text \<open>
  \<^verbatim>\<open>hpf_process_buffer\<close>, \<^verbatim>\<open>lpf_process_buffer\<close> and
  \<^verbatim>\<open>parametric_process_buffer\<close>, built without \<^verbatim>\<open>USE_MLIR\<close>: the same text up to the
  name of the struct, written once and then named three times. The result is the
  content of the two pointees after the call, or the fault.
\<close>

definition process_buffer ::
    "'a HPFFilter_scheme option \<Rightarrow> AudioBuffer option
       \<Rightarrow> fault + 'a HPFFilter_scheme option \<times> AudioBuffer option" where
  "process_buffer flt buffer =
     (case flt of
        None \<Rightarrow> Inr (flt, buffer)
      | Some f \<Rightarrow>
          (case buffer of
             None \<Rightarrow> Inr (flt, buffer)
           | Some buf \<Rightarrow>
               (case data buf of
                  None \<Rightarrow> Inr (flt, buffer)
                | Some d \<Rightarrow>
                    (if channels buf = 1 then
                       (case process_channel flt (data buf) 0 of
                          (flt', d') \<Rightarrow> Inr (flt', Some (buf\<lparr>data := d'\<rparr>)))
                     else if channels buf = 2 then
                       (case stereo_loop (left f) (right f) d 0 of
                          (l, r, d') \<Rightarrow>
                            Inr (Some (f\<lparr>left := l, right := r\<rparr>),
                                 Some (buf\<lparr>data := Some d'\<rparr>)))
                     else
                       (case multi_loop (channels buf) (left f) (right f) d 0 of
                          Inl e \<Rightarrow> Inl e
                        | Inr (l, r, d') \<Rightarrow>
                            Inr (Some (f\<lparr>left := l, right := r\<rparr>),
                                 Some (buf\<lparr>data := Some d'\<rparr>)))))))"

definition hpf_process_buffer ::
    "HPFFilter option \<Rightarrow> AudioBuffer option
       \<Rightarrow> fault + HPFFilter option \<times> AudioBuffer option" where
  "hpf_process_buffer hpf buffer = process_buffer hpf buffer"

definition lpf_process_buffer ::
    "LPFFilter option \<Rightarrow> AudioBuffer option
       \<Rightarrow> fault + LPFFilter option \<times> AudioBuffer option" where
  "lpf_process_buffer lpf buffer = process_buffer lpf buffer"

definition parametric_process_buffer ::
    "ParametricFilter option \<Rightarrow> AudioBuffer option
       \<Rightarrow> fault + ParametricFilter option \<times> AudioBuffer option" where
  "parametric_process_buffer peq buffer = process_buffer peq buffer"

section \<open>Runs of one unit\<close>

text \<open>
  One step of every dispatcher loop: the sample goes through the unit and the result
  is mixed, \<open>process(input) * c0 + input * d0\<close>.
\<close>

definition mix_process :: "BiQuad \<Rightarrow> real \<Rightarrow> real \<times> BiQuad" where
  "mix_process bq input =
     (fst (biquad_process_at bq input) * c0 (snd (biquad_process_at bq input))
        + input * d0 (snd (biquad_process_at bq input)),
      snd (biquad_process_at bq input))"

text \<open>A lane run: the samples of a list go through one unit in order, each one mixed.\<close>

fun lane_run :: "BiQuad \<Rightarrow> real list \<Rightarrow> real list \<times> BiQuad" where
  "lane_run bq [] = ([], bq)"
| "lane_run bq (x # xs) =
     (fst (mix_process bq x) # fst (lane_run (snd (mix_process bq x)) xs),
      snd (lane_run (snd (mix_process bq x)) xs))"

text \<open>
  A dispatch by a predicate on the index: the sample at index \<open>i\<close> goes through the
  left unit when \<open>p i\<close> holds and through the right unit otherwise. The list holds the
  samples from index \<open>i\<close> on.
\<close>

fun dispatch ::
    "(nat \<Rightarrow> bool) \<Rightarrow> BiQuad \<Rightarrow> BiQuad \<Rightarrow> nat \<Rightarrow> real list \<Rightarrow> real list \<times> BiQuad \<times> BiQuad" where
  "dispatch p l r i [] = ([], l, r)"
| "dispatch p l r i (x # xs) =
     (if p i
      then (case dispatch p (snd (mix_process l x)) r (Suc i) xs of
              (ys, l', r') \<Rightarrow> (fst (mix_process l x) # ys, l', r'))
      else (case dispatch p l (snd (mix_process r x)) (Suc i) xs of
              (ys, l', r') \<Rightarrow> (fst (mix_process r x) # ys, l', r')))"

text \<open>A sequence of calls of \<^verbatim>\<open>biquad_process\<close> on one unit: the returned samples and the unit.\<close>

fun process_seq :: "BiQuad option \<Rightarrow> real list \<Rightarrow> real list \<times> BiQuad option" where
  "process_seq bq [] = ([], bq)"
| "process_seq bq (x # xs) =
     (fst (biquad_process bq x) # fst (process_seq (snd (biquad_process bq x)) xs),
      snd (process_seq (snd (biquad_process bq x)) xs))"

text \<open>
  The invariant of the delays after the inputs \<open>xs\<close> gave the outputs \<open>ys\<close>: the two
  most recent inputs and the two most recent outputs, the most recent first.
\<close>

definition delay_invariant :: "BiQuad \<Rightarrow> real list \<Rightarrow> real list \<Rightarrow> bool" where
  "delay_invariant b xs ys \<longleftrightarrow>
     2 \<le> length xs \<and> length ys = length xs
     \<and> xz1 b = last xs \<and> xz2 b = last (butlast xs)
     \<and> yz1 b = last ys \<and> yz2 b = last (butlast ys)"

text \<open>The unit as \<^verbatim>\<open>biquad_init\<close> leaves it.\<close>

definition unit0 :: BiQuad where
  "unit0 = \<lparr>a0 = 0, a1 = 0, a2 = 0, b1 = 0, b2 = 0, c0 = 1, d0 = 0,
             xz1 = 0, xz2 = 0, yz1 = 0, yz2 = 0\<rparr>"

text \<open>The lane test of the multi-channel loop: the converted channel index is even.\<close>

definition multi_lane :: "int \<Rightarrow> nat \<Rightarrow> bool" where
  "multi_lane chans i \<longleftrightarrow> int_of_size_t (i mod size_t_of_int chans) mod 2 = 0"

text \<open>
  What the sample at index \<open>i\<close> becomes under a dispatch by \<open>p\<close>: it goes through the
  unit of its lane, in the state that unit has after the earlier samples of the same
  lane, and the result is mixed.
\<close>

definition spec_sample :: "(nat \<Rightarrow> bool) \<Rightarrow> BiQuad \<Rightarrow> BiQuad \<Rightarrow> real list \<Rightarrow> nat \<Rightarrow> real" where
  "spec_sample p l r xs i =
     (if p i
      then fst (mix_process (snd (lane_run l (nths (take i xs) {k. p k}))) (xs ! i))
      else fst (mix_process (snd (lane_run r (nths (take i xs) {k. \<not> p k}))) (xs ! i)))"

text \<open>Units, filters and buffers for the examples.\<close>

definition gain_unit :: "real \<Rightarrow> BiQuad" where
  "gain_unit g = \<lparr>a0 = g, a1 = 0, a2 = 0, b1 = 0, b2 = 0, c0 = 1, d0 = 0,
                  xz1 = 0, xz2 = 0, yz1 = 0, yz2 = 0\<rparr>"

definition example_hpf :: HPFFilter where
  "example_hpf = \<lparr>left = gain_unit 2, right = gain_unit 3, frequency = 100\<rparr>"

definition example_peq :: ParametricFilter where
  "example_peq = \<lparr>left = gain_unit 2, right = gain_unit 3, frequency = 100, gain = 6, q = 1\<rparr>"

definition example_buffer :: "int \<Rightarrow> real list \<Rightarrow> AudioBuffer" where
  "example_buffer n xs = \<lparr>data = Some xs, sample_rate = 44100, channels = n, bit_depth = 16\<rparr>"

declare channel_loop.simps [simp del] stereo_loop.simps [simp del] multi_loop.simps [simp del]

section \<open>The MLIR backend (mlir_biquad.cpp)\<close>

text \<open>
  The struct \<^verbatim>\<open>MLIRBiQuadJIT\<close>, reduced to its two function pointers: each field says
  whether the pointer is set. A pointer that is set points to the function compiled
  from the IR of that name; the functions below are read off the operations that
  \<^verbatim>\<open>createBiQuadModule\<close> and \<^verbatim>\<open>addBufferProcessFunction\<close> emit, and the lowering passes
  and the optimiser are taken to keep their meaning.
\<close>

record MLIRBiQuadJIT =
  process_fn :: bool
  process_buffer_fn :: bool

text \<open>
  The function \<^verbatim>\<open>biquad_process\<close> of the module (mlir_biquad.cpp lines 96 to 113):
  five \<^verbatim>\<open>mulf\<close>, two \<^verbatim>\<open>addf\<close>, two \<^verbatim>\<open>subf\<close>, in this order. The arguments are the
  five coefficients, the input and the four delays.
\<close>

definition jit_biquad_process ::
    "real \<Rightarrow> real \<Rightarrow> real \<Rightarrow> real \<Rightarrow> real \<Rightarrow> real \<Rightarrow> real \<Rightarrow> real \<Rightarrow> real \<Rightarrow> real \<Rightarrow> real" where
  "jit_biquad_process k0 k1 k2 k3 k4 input sxz1 sxz2 syz1 syz2 =
     (let t1 = k0 * input;
          t2 = k1 * sxz1;
          t3 = k2 * sxz2;
          t4 = k3 * syz1;
          t5 = k4 * syz2;
          s1 = t1 + t2;
          s2 = s1 + t3;
          s3 = s2 - t4;
          yn = s3 - t5
      in yn)"

text \<open>
  The \<^verbatim>\<open>scf.for\<close> loop of the function \<^verbatim>\<open>biquad_process_buffer\<close> of the module
  (lines 189 to 220): the induction variable \<open>i\<close>, the four loop-carried delays, a load
  of \<open>input[i]\<close>, the same nine operations, a store to \<open>output[i]\<close>, and the yield
  \<open>(input, xz1, yn, yz1)\<close>. The input pointer and the length are one list; the output
  array has as many elements.
\<close>

function jit_buffer_loop ::
    "real list \<Rightarrow> real list \<Rightarrow> real \<Rightarrow> real \<Rightarrow> real \<Rightarrow> real \<Rightarrow> real \<Rightarrow> nat
       \<Rightarrow> real \<times> real \<times> real \<times> real \<Rightarrow> real list \<times> real \<times> real \<times> real \<times> real" where
  "jit_buffer_loop inp outp k0 k1 k2 k3 k4 i st =
     (if i < length inp then
        (case st of (loopXz1, loopXz2, loopYz1, loopYz2) \<Rightarrow>
           (let input = inp ! i;
                t1 = k0 * input;
                t2 = k1 * loopXz1;
                t3 = k2 * loopXz2;
                t4 = k3 * loopYz1;
                t5 = k4 * loopYz2;
                s1 = t1 + t2;
                s2 = s1 + t3;
                s3 = s2 - t4;
                yn = s3 - t5
            in jit_buffer_loop inp (outp[i := yn]) k0 k1 k2 k3 k4 (Suc i)
                 (input, loopXz1, yn, loopYz1)))
      else (outp, st))"
  by pat_completeness auto
termination
  by (relation "measure (\<lambda>(inp, outp, k0, k1, k2, k3, k4, i, st). length inp - i)") auto

text \<open>
  The whole compiled function (lines 168 to 229): the four delays are loaded from the
  state array, the loop runs from 0, the loop results are stored back.
\<close>

definition jit_biquad_process_buffer ::
    "real list \<Rightarrow> real list \<Rightarrow> real \<Rightarrow> real \<Rightarrow> real \<Rightarrow> real \<Rightarrow> real
       \<Rightarrow> real \<times> real \<times> real \<times> real \<Rightarrow> real list \<times> real \<times> real \<times> real \<times> real" where
  "jit_biquad_process_buffer inp outp k0 k1 k2 k3 k4 st =
     jit_buffer_loop inp outp k0 k1 k2 k3 k4 0 st"

text \<open>
  \<^verbatim>\<open>mlir_biquad_process\<close> (lines 358 to 384): the compiled function is called, the
  delays are shuffled with its result, and the underflow check (the same two
  \<^verbatim>\<open>if\<close> statements as in biquad.c) is applied to the returned value afterwards.
\<close>

definition mlir_biquad_process ::
    "MLIRBiQuadJIT option \<Rightarrow> BiQuad option \<Rightarrow> real \<Rightarrow> real \<times> BiQuad option" where
  "mlir_biquad_process jit bq input =
     (case jit of
        None \<Rightarrow> (0, bq)
      | Some j \<Rightarrow>
          (if \<not> process_fn j then (0, bq)
           else (case bq of
                   None \<Rightarrow> (0, bq)
                 | Some b \<Rightarrow>
                     (let yn = jit_biquad_process (a0 b) (a1 b) (a2 b) (b1 b) (b2 b) input
                                 (xz1 b) (xz2 b) (yz1 b) (yz2 b);
                          b = b\<lparr>xz2 := xz1 b\<rparr>;
                          b = b\<lparr>xz1 := input\<rparr>;
                          b = b\<lparr>yz2 := yz1 b\<rparr>;
                          b = b\<lparr>yz1 := yn\<rparr>;
                          yn = underflow_check yn
                      in (yn, Some b)))))"

text \<open>The fallback loop of \<^verbatim>\<open>mlir_biquad_process_buffer\<close> (lines 414 to 416).\<close>

function mlir_fallback_loop ::
    "MLIRBiQuadJIT option \<Rightarrow> BiQuad option \<Rightarrow> real list \<Rightarrow> real list \<Rightarrow> nat
       \<Rightarrow> BiQuad option \<times> real list" where
  "mlir_fallback_loop jit bq inp outp i =
     (if i < length inp then
        mlir_fallback_loop jit (snd (mlir_biquad_process jit bq (inp ! i))) inp
          (outp[i := fst (mlir_biquad_process jit bq (inp ! i))]) (Suc i)
      else (bq, outp))"
  by pat_completeness auto
termination
  by (relation "measure (\<lambda>(jit, bq, inp, outp, i). length inp - i)") auto

text \<open>
  \<^verbatim>\<open>mlir_biquad_process_buffer\<close> (lines 386 to 418), called with distinct input and
  output arrays: the result is the unit and the output array after the call.
\<close>

definition mlir_biquad_process_buffer ::
    "MLIRBiQuadJIT option \<Rightarrow> BiQuad option \<Rightarrow> real list option \<Rightarrow> real list option
       \<Rightarrow> BiQuad option \<times> real list option" where
  "mlir_biquad_process_buffer jit bq input output =
     (case (jit, bq, input, output) of
        (Some j, Some b, Some inp, Some outp) \<Rightarrow>
          (if process_buffer_fn j then
             (case jit_biquad_process_buffer inp outp (a0 b) (a1 b) (a2 b) (b1 b) (b2 b)
                     (xz1 b, xz2 b, yz1 b, yz2 b) of
                (outp, state0, state1, state2, state3) \<Rightarrow>
                  (let b = b\<lparr>xz1 := state0\<rparr>;
                       b = b\<lparr>xz2 := state1\<rparr>;
                       b = b\<lparr>yz1 := state2\<rparr>;
                       b = b\<lparr>yz2 := state3\<rparr>;
                       b = b\<lparr>yz1 := underflow_check (yz1 b)\<rparr>
                   in (Some b, Some outp)))
           else (case mlir_fallback_loop jit bq inp outp 0 of
                   (bq, outp) \<Rightarrow> (bq, Some outp)))
      | _ \<Rightarrow> (bq, output))"

text \<open>A sequence of calls of \<^verbatim>\<open>mlir_biquad_process\<close> on one unit.\<close>

fun mlir_process_seq ::
    "MLIRBiQuadJIT option \<Rightarrow> BiQuad option \<Rightarrow> real list \<Rightarrow> real list \<times> BiQuad option" where
  "mlir_process_seq jit bq [] = ([], bq)"
| "mlir_process_seq jit bq (x # xs) =
     (fst (mlir_biquad_process jit bq x)
        # fst (mlir_process_seq jit (snd (mlir_biquad_process jit bq x)) xs),
      snd (mlir_process_seq jit (snd (mlir_biquad_process jit bq x)) xs))"

text \<open>A JIT context with both functions, and a unit with a large feedback coefficient.\<close>

definition full_jit :: MLIRBiQuadJIT where
  "full_jit = \<lparr>process_fn = True, process_buffer_fn = True\<rparr>"

definition feedback_unit :: BiQuad where
  "feedback_unit = \<lparr>a0 = 1, a1 = 0, a2 = 0, b1 = - (10 ^ 30), b2 = 0, c0 = 1, d0 = 0,
                     xz1 = 0, xz2 = 0, yz1 = 0, yz2 = 0\<rparr>"

text \<open>
  No sample of a run falls into the underflow window: for each input of the list, in
  turn, the value of the difference equation is one that the underflow check keeps.
\<close>

fun no_underflow :: "BiQuad \<Rightarrow> real list \<Rightarrow> bool" where
  "no_underflow b [] = True"
| "no_underflow b (x # xs) =
     (underflow_check (a0 b * x + a1 b * xz1 b + a2 b * xz2 b - b1 b * yz1 b - b2 b * yz2 b)
        = a0 b * x + a1 b * xz1 b + a2 b * xz2 b - b1 b * yz1 b - b2 b * yz2 b
      \<and> no_underflow (snd (biquad_process_at b x)) xs)"

declare jit_buffer_loop.simps [simp del] mlir_fallback_loop.simps [simp del]

section \<open>Properties of the biquad unit\<close>

lemma underflow_check_cases:
  "underflow_check yn =
     (if (0 < yn \<and> yn < 1175494351 / 10 ^ 47) \<or> (- (1175494351 / 10 ^ 47) < yn \<and> yn < 0)
      then 0 else yn)"
  by (simp add: underflow_check_def FLT_MIN_PLUS_def FLT_MIN_MINUS_def Let_def)

text \<open>
  C1. For every unit and every input sample, \<open>biquad_process\<close> computes
  \<open>yn = a0*x + a1*xz1 + a2*xz2 - b1*yz1 - b2*yz2\<close>, replaces it by 0 when
  \<open>0 < yn < 1.175494351e-38\<close> or \<open>-1.175494351e-38 < yn < 0\<close>, then sets
  yz2 to the old yz1, yz1 to the clamped yn, xz2 to the old xz1 and xz1 to the input,
  leaves the seven coefficients as they were, and returns the clamped yn.
\<close>

theorem biquad_process_spec:
  "biquad_process (Some b) x =
     (let raw = a0 b * x + a1 b * xz1 b + a2 b * xz2 b - b1 b * yz1 b - b2 b * yz2 b;
          yn = (if (0 < raw \<and> raw < 1175494351 / 10 ^ 47)
                   \<or> (- (1175494351 / 10 ^ 47) < raw \<and> raw < 0) then 0 else raw)
      in (yn, Some \<lparr>a0 = a0 b, a1 = a1 b, a2 = a2 b, b1 = b1 b, b2 = b2 b,
                     c0 = c0 b, d0 = d0 b,
                     xz1 = x, xz2 = xz1 b, yz1 = yn, yz2 = yz1 b\<rparr>))"
  by (cases b) (simp add: biquad_process_def biquad_process_at_def underflow_check_cases Let_def)

text \<open>
  The unit tests of the specification: \<open>biquad_init\<close> gives the zero unit with full
  wet mix; with \<open>a0 = 1\<close> and all other coefficients 0 a sample outside the underflow
  window passes unchanged, \<open>1e-39\<close> and \<open>-1e-39\<close> become 0 and \<open>1e-10\<close> stays; with
  \<open>a1 = 1\<close> and all other coefficients 0 the unit delays by one sample.
\<close>

lemma biquad_init_unit0: "biquad_init (Some b) = Some unit0"
  by (cases b) (simp add: biquad_init_def biquad_flush_delays_def unit0_def)

lemma pass_through_identity:
  assumes "x \<le> - (1175494351 / 10 ^ 47) \<or> x = 0 \<or> 1175494351 / 10 ^ 47 \<le> x"
  shows "fst (biquad_process (Some (gain_unit 1)) x) = x"
  using assms
  by (auto simp: biquad_process_def biquad_process_at_def gain_unit_def Let_def
      underflow_check_cases)

lemma denormal_clamp:
  "fst (biquad_process (Some (gain_unit 1)) (1 / 10 ^ 39)) = 0"
  "fst (biquad_process (Some (gain_unit 1)) (- (1 / 10 ^ 39))) = 0"
  "fst (biquad_process (Some (gain_unit 1)) (1 / 10 ^ 10)) = 1 / 10 ^ 10"
  by (simp_all add: biquad_process_def biquad_process_at_def gain_unit_def Let_def
      underflow_check_cases)

lemma unit_delay:
  "fst (process_seq (Some (unit0\<lparr>a1 := 1\<rparr>)) [x, y]) = [0, underflow_check x]"
  by (simp add: biquad_process_def biquad_process_at_def unit0_def Let_def
      underflow_check_cases)

text \<open>
  C10. With a null unit, \<open>biquad_process\<close> returns the input sample as it is, for
  every input: there is no unit to change and no failure.
\<close>

theorem biquad_process_null:
  "biquad_process None x = (x, None)"
  by (simp add: biquad_process_def)

section \<open>The dispatcher loops as lane runs\<close>

lemma drop_update_step:
  assumes "i < length d"
  shows "drop i d = d ! i # drop (Suc i) d"
    and "drop (Suc i) (d[i := v]) = drop (Suc i) d"
    and "take (Suc i) (d[i := v]) = take i d @ [v]"
  using assms by (simp_all add: Cons_nth_drop_Suc take_Suc_conv_app_nth)

lemma channel_loop_lane_run:
  "channel_loop bq d i =
     (snd (lane_run bq (drop i d)), take i d @ fst (lane_run bq (drop i d)))"
proof (induction bq d i rule: channel_loop.induct)
  case (1 bq d i)
  show ?case
  proof (cases "i < length d")
    case True
    note st = drop_update_step [OF True]
    have "channel_loop bq d i =
        channel_loop (snd (mix_process bq (d ! i))) (d[i := fst (mix_process bq (d ! i))]) (Suc i)"
      using True by (subst channel_loop.simps) (simp add: Let_def mix_process_def)
    also have "\<dots> = (snd (lane_run (snd (mix_process bq (d ! i))) (drop (Suc i) d)),
        take i d @ fst (mix_process bq (d ! i)) # fst (lane_run (snd (mix_process bq (d ! i))) (drop (Suc i) d)))"
      using "1.IH" [OF True refl refl refl] st(2,3)
      by (simp add: mix_process_def)
    finally show ?thesis by (simp add: st(1))
  next
    case False
    then show ?thesis by (subst channel_loop.simps) simp
  qed
qed


lemma multi_loop_dispatch:
  "size_t_of_int chans \<noteq> 0 \<Longrightarrow>
   multi_loop chans l r d i =
     Inr (case dispatch (multi_lane chans) l r i (drop i d) of
            (ys, l', r') \<Rightarrow> (l', r', take i d @ ys))"
proof (induction chans l r d i rule: multi_loop.induct)
  case (1 chans l r d i)
  note nz = "1.prems"
  show ?case
  proof (cases "i < length d")
    case False
    then show ?thesis by (subst multi_loop.simps) simp
  next
    case True
    note st = drop_update_step [OF True]
    show ?thesis
    proof (cases "multi_lane chans i")
      case lane: True
      then have lane': "int_of_size_t (i mod size_t_of_int chans) mod 2 = 0"
        by (simp add: multi_lane_def)
      have "multi_loop chans l r d i =
          multi_loop chans (snd (mix_process l (d ! i))) r (d[i := fst (mix_process l (d ! i))]) (Suc i)"
        using True nz lane'
        by (subst multi_loop.simps) (simp add: Let_def mix_process_def)
      also have "\<dots> = Inr (case dispatch (multi_lane chans) (snd (mix_process l (d ! i))) r (Suc i) (drop (Suc i) d) of
            (ys, l', r') \<Rightarrow> (l', r', take i d @ fst (mix_process l (d ! i)) # ys))"
        using "1.IH"(1) [OF True nz refl refl lane' refl refl nz] st(2,3)
        by (simp add: mix_process_def split: prod.splits)
      finally show ?thesis using lane by (simp add: st(1) split: prod.splits)
    next
      case lane: False
      then have lane': "int_of_size_t (i mod size_t_of_int chans) mod 2 \<noteq> 0"
        by (simp add: multi_lane_def)
      have "multi_loop chans l r d i =
          multi_loop chans l (snd (mix_process r (d ! i))) (d[i := fst (mix_process r (d ! i))]) (Suc i)"
        using True nz lane'
        by (subst multi_loop.simps) (simp add: Let_def mix_process_def)
      also have "\<dots> = Inr (case dispatch (multi_lane chans) l (snd (mix_process r (d ! i))) (Suc i) (drop (Suc i) d) of
            (ys, l', r') \<Rightarrow> (l', r', take i d @ fst (mix_process r (d ! i)) # ys))"
        using "1.IH"(2) [OF True nz refl refl lane' refl refl nz] st(2,3)
        by (simp add: mix_process_def split: prod.splits)
      finally show ?thesis using lane by (simp add: st(1) split: prod.splits)
    qed
  qed
qed


lemma stereo_loop_dispatch:
  "even i \<Longrightarrow>
   stereo_loop l r d i =
     (case dispatch even l r i (drop i d) of
        (ys, l', r') \<Rightarrow> (l', r', take i d @ ys))"
proof (induction l r d i rule: stereo_loop.induct)
  case (1 l r d i)
  note ev = "1.prems"
  then have ev2: "even (i + 2)" by simp
  let ?l = "snd (mix_process l (d ! i))"
  let ?y = "fst (mix_process l (d ! i))"
  let ?d1 = "d[i := ?y]"
  show ?case
  proof (cases "i < length d")
    case False
    then show ?thesis by (subst stereo_loop.simps) simp
  next
    case True
    note st = drop_update_step [OF True]
    show ?thesis
    proof (cases "i + 1 < length d")
      case last: False
      then have len: "length d = Suc i" using True by simp
      have "stereo_loop l r d i = stereo_loop ?l r ?d1 (i + 2)"
        using True last by (subst stereo_loop.simps) (simp add: Let_def mix_process_def)
      also have "\<dots> = (?l, r, ?d1)"
        using len by (subst stereo_loop.simps) simp
      also have "?d1 = take i d @ [?y]"
        using st(3) [of ?y] len by simp
      finally show ?thesis using ev len by (simp add: st(1))
    next
      case more: True
      let ?x = "d ! (i + 1)"
      let ?r = "snd (mix_process r ?x)"
      let ?z = "fst (mix_process r ?x)"
      let ?d2 = "?d1[i + 1 := ?z]"
      have m1: "Suc i < length ?d1" using more by simp
      note st1 = drop_update_step [OF m1]
      have rd: "?d1 ! (i + 1) = ?x" by simp
      have "stereo_loop l r d i = stereo_loop ?l ?r ?d2 (i + 2)"
        using True more rd by (subst stereo_loop.simps) (simp add: Let_def mix_process_def)
      also have "\<dots> = (case dispatch even ?l ?r (i + 2) (drop (i + 2) ?d2) of
            (ys, l', r') \<Rightarrow> (l', r', take (i + 2) ?d2 @ ys))"
        using "1.IH"(1) [OF True refl refl refl refl
            m1 [unfolded mix_process_def fst_conv snd_conv Suc_eq_plus1] refl refl refl refl ev2] rd
        by (simp add: mix_process_def)
      also have "drop (i + 2) ?d2 = drop (i + 2) d"
        using st1(2) [of ?z] by simp
      also have "take (i + 2) ?d2 = take i d @ [?y, ?z]"
        using st1(3) [of ?z] st(3) [of ?y] by simp
      finally show ?thesis
        using ev st(1) drop_update_step(1) [OF more]
        by (simp split: prod.splits)
    qed
  qed
qed

lemma dispatch_length:
  "length (fst (dispatch p l r i xs)) = length xs"
  by (induction xs arbitrary: l r i) (simp_all add: split_beta)

lemma dispatch_nths:
  "lane_run l (nths xs {k. p (i + k)}) =
     (nths (fst (dispatch p l r i xs)) {k. p (i + k)}, fst (snd (dispatch p l r i xs)))
   \<and> lane_run r (nths xs {k. \<not> p (i + k)}) =
     (nths (fst (dispatch p l r i xs)) {k. \<not> p (i + k)}, snd (snd (dispatch p l r i xs)))"
proof (induction xs arbitrary: l r i)
  case Nil
  show ?case by simp
next
  case (Cons x xs)
  show ?case
    using Cons.IH [where l = "snd (mix_process l x)" and r = r and i = "Suc i"]
      Cons.IH [where l = l and r = "snd (mix_process r x)" and i = "Suc i"]
    by (auto simp: nths_Cons split_beta)
qed


lemma dispatch_append:
  "dispatch p l r i (xs @ zs) =
     (fst (dispatch p l r i xs)
        @ fst (dispatch p (fst (snd (dispatch p l r i xs))) (snd (snd (dispatch p l r i xs)))
                 (i + length xs) zs),
      snd (dispatch p (fst (snd (dispatch p l r i xs))) (snd (snd (dispatch p l r i xs)))
                 (i + length xs) zs))"
  by (induction xs arbitrary: l r i) (simp_all add: split_beta)

lemma dispatch_states:
  "fst (snd (dispatch p l r 0 xs)) = snd (lane_run l (nths xs {k. p k}))"
  "snd (snd (dispatch p l r 0 xs)) = snd (lane_run r (nths xs {k. \<not> p k}))"
  using dispatch_nths [of l xs p 0 r] by simp_all

lemma dispatch_nth:
  assumes "i < length xs"
  shows "fst (dispatch p l r 0 xs) ! i = spec_sample p l r xs i"
proof -
  have xs: "xs = take i xs @ (xs ! i # drop (Suc i) xs)"
    using assms by (simp add: id_take_nth_drop [symmetric])
  have len: "length (fst (dispatch p l r 0 (take i xs))) = i"
    using assms by (simp add: dispatch_length)
  have "fst (dispatch p l r 0 xs) ! i =
      fst (dispatch p l r 0 (take i xs @ (xs ! i # drop (Suc i) xs))) ! i"
    using xs by simp
  also have "\<dots> = spec_sample p l r xs i"
    using assms len
    by (simp add: dispatch_append nth_append dispatch_states spec_sample_def split_beta min_def)
  finally show ?thesis .
qed

lemma dispatch_spec:
  "fst (dispatch p l r 0 xs) = map (spec_sample p l r xs) [0..<length xs]"
  by (rule nth_equalityI) (simp_all add: dispatch_length dispatch_nth)


lemma multi_lane_small:
  assumes "0 < N" and "N < 2 ^ 31"
  shows "size_t_of_int N = nat N" and "multi_lane N = (\<lambda>i. even (i mod nat N))"
proof -
  have "N mod 2 ^ 64 = N" using assms by simp
  then show sz: "size_t_of_int N = nat N" by (simp add: size_t_of_int_def)
  show "multi_lane N = (\<lambda>i. even (i mod nat N))"
  proof
    fix i
    have "i mod nat N < nat N" using assms by simp
    then have "int (i mod nat N) < N" using assms by linarith
    then have "int (i mod nat N) < 2 ^ 31" using assms by linarith
    then have "signed_take_bit 31 (int (i mod nat N)) = int (i mod nat N)"
      by (intro signed_take_bit_int_eq_self) simp_all
    then show "multi_lane N i = even (i mod nat N)"
      by (simp add: multi_lane_def int_of_size_t_def sz even_iff_mod_2_eq_zero [symmetric])
  qed
qed

lemma multi_loop_spec:
  assumes "0 < N" and "N < 2 ^ 31"
  shows "multi_loop N l r xs 0 =
     Inr (snd (lane_run l (nths xs {k. even (k mod nat N)})),
          snd (lane_run r (nths xs {k. odd (k mod nat N)})),
          map (spec_sample (\<lambda>i. even (i mod nat N)) l r xs) [0..<length xs])"
proof -
  have nz: "size_t_of_int N \<noteq> 0" using multi_lane_small(1) [OF assms] assms by simp
  show ?thesis
    by (simp add: multi_loop_dispatch [OF nz] multi_lane_small(2) [OF assms] split_beta
        dispatch_states dispatch_spec)
qed

lemma stereo_loop_spec:
  "stereo_loop l r xs 0 =
     (snd (lane_run l (nths xs {k. even k})),
      snd (lane_run r (nths xs {k. odd k})),
      map (spec_sample even l r xs) [0..<length xs])"
  by (simp add: stereo_loop_dispatch split_beta dispatch_states dispatch_spec)

lemma process_buffer_multi:
  assumes "2 < channels buf" and "channels buf < 2 ^ 31" and "data buf = Some xs"
  shows "process_buffer (Some f) (Some buf) =
     Inr (Some (f\<lparr>left := snd (lane_run (left f) (nths xs {k. even (k mod nat (channels buf))})),
                  right := snd (lane_run (right f) (nths xs {k. odd (k mod nat (channels buf))}))\<rparr>),
          Some (buf\<lparr>data := Some (map (spec_sample (\<lambda>i. even (i mod nat (channels buf)))
                                        (left f) (right f) xs) [0..<length xs])\<rparr>))"
proof -
  have pos: "0 < channels buf" using assms(1) by simp
  show ?thesis
    using assms by (simp add: process_buffer_def multi_loop_spec [OF pos assms(2)])
qed

lemma process_buffer_stereo:
  assumes "channels buf = 2" and "data buf = Some xs"
  shows "process_buffer (Some f) (Some buf) =
     Inr (Some (f\<lparr>left := snd (lane_run (left f) (nths xs {k. even k})),
                  right := snd (lane_run (right f) (nths xs {k. odd k}))\<rparr>),
          Some (buf\<lparr>data := Some (map (spec_sample even (left f) (right f) xs) [0..<length xs])\<rparr>))"
  using assms by (simp add: process_buffer_def stereo_loop_spec)

lemma process_buffer_mono:
  assumes "channels buf = 1" and "data buf = Some xs"
  shows "process_buffer (Some f) (Some buf) =
     Inr (Some (f\<lparr>left := snd (lane_run (left f) xs)\<rparr>),
          Some (buf\<lparr>data := Some (fst (lane_run (left f) xs))\<rparr>))"
  using assms by (simp add: process_buffer_def process_channel_def channel_loop_lane_run)

lemma process_buffer_noop:
  "process_buffer None buffer = Inr (None, buffer)"
  "process_buffer flt None = Inr (flt, None)"
  "data buf = None \<Longrightarrow> process_buffer flt (Some buf) = Inr (flt, Some buf)"
  "data buf = Some [] \<Longrightarrow> process_buffer flt (Some buf) = Inr (flt, Some buf)"
proof -
  show "process_buffer None buffer = Inr (None, buffer)"
    by (simp add: process_buffer_def)
  show "process_buffer flt None = Inr (flt, None)"
    by (simp add: process_buffer_def split: option.splits)
  show "data buf = None \<Longrightarrow> process_buffer flt (Some buf) = Inr (flt, Some buf)"
    by (simp add: process_buffer_def split: option.splits)
  assume e: "data buf = Some []"
  then have same: "buf\<lparr>data := Some []\<rparr> = buf" by (cases buf) simp
  show "process_buffer flt (Some buf) = Inr (flt, Some buf)"
  proof (cases flt)
    case None
    then show ?thesis by (simp add: process_buffer_def)
  next
    case (Some f)
    have c: "channel_loop bq [] 0 = (bq, [])" for bq
      by (subst channel_loop.simps) simp
    have s: "stereo_loop l r [] 0 = (l, r, [])" for l r
      by (subst stereo_loop.simps) simp
    have m: "multi_loop n l r [] 0 = Inr (l, r, [])" for n l r
      by (subst multi_loop.simps) simp
    show ?thesis
      using e Some same by (simp add: process_buffer_def process_channel_def c s m)
  qed
qed

lemma nths_odd_length:
  assumes "odd (length xs)"
  shows "nths xs {k. even k} = nths (butlast xs) {k. even k} @ [last xs]"
    and "nths xs {k. odd k} = nths (butlast xs) {k. odd k}"
    and "take (length xs - 1) xs = butlast xs"
    and "xs ! (length xs - 1) = last xs"
proof -
  have ne: "xs \<noteq> []" using assms by auto
  then have xs: "xs = butlast xs @ [last xs]" by simp
  have ev: "even (length (butlast xs))" using assms ne by simp
  have a: "nths (butlast xs @ [last xs]) {k. even k} = nths (butlast xs) {k. even k} @ [last xs]"
    using ev by (simp add: nths_append nths_Cons)
  have b: "nths (butlast xs @ [last xs]) {k. odd k} = nths (butlast xs) {k. odd k}"
    using ev by (simp add: nths_append nths_Cons)
  show "nths xs {k. even k} = nths (butlast xs) {k. even k} @ [last xs]"
    using a xs by simp
  show "nths xs {k. odd k} = nths (butlast xs) {k. odd k}"
    using b xs by simp
  show "take (length xs - 1) xs = butlast xs" by (simp add: butlast_conv_take)
  show "xs ! (length xs - 1) = last xs" using ne by (simp add: last_conv_nth)
qed

lemma lane_run_snoc:
  "lane_run bq (xs @ [x]) =
     (fst (lane_run bq xs) @ [fst (mix_process (snd (lane_run bq xs)) x)],
      snd (mix_process (snd (lane_run bq xs)) x))"
  by (induction xs arbitrary: bq) simp_all

lemma mix_process_xz1: "xz1 (snd (mix_process bq x)) = x"
  by (simp add: mix_process_def biquad_process_at_def Let_def)

section \<open>The stereo dispatch on a buffer of odd length\<close>

text \<open>
  C2, as the code has it. For every filter instance and every 2-channel buffer
  whose sample count \<open>L\<close> is odd, \<open>process_buffer\<close> processes every sample,
  the final one too: the samples at even indices go through lane 0 and those at odd
  indices through lane 1, each lane keeping its running state; the index \<open>L - 1\<close> is
  even, so the final sample goes through lane 0, in the state lane 0 has after the
  earlier even samples, and it is the last input lane 0 has seen. Only the lane 1 step
  of the last frame is left out.
\<close>

theorem stereo_odd_length:
  assumes "channels buf = 2" and "data buf = Some xs" and "odd (length xs)"
  shows
    "hpf_process_buffer (Some h) (Some buf) =
       Inr (Some (h\<lparr>left := snd (lane_run (left h) (nths xs {k. even k})),
                    right := snd (lane_run (right h) (nths xs {k. odd k}))\<rparr>),
            Some (buf\<lparr>data := Some (map (spec_sample even (left h) (right h) xs) [0..<length xs])\<rparr>))
     \<and> lpf_process_buffer (Some h) (Some buf) =
       Inr (Some (h\<lparr>left := snd (lane_run (left h) (nths xs {k. even k})),
                    right := snd (lane_run (right h) (nths xs {k. odd k}))\<rparr>),
            Some (buf\<lparr>data := Some (map (spec_sample even (left h) (right h) xs) [0..<length xs])\<rparr>))
     \<and> parametric_process_buffer (Some e) (Some buf) =
       Inr (Some (e\<lparr>left := snd (lane_run (left e) (nths xs {k. even k})),
                    right := snd (lane_run (right e) (nths xs {k. odd k}))\<rparr>),
            Some (buf\<lparr>data := Some (map (spec_sample even (left e) (right e) xs) [0..<length xs])\<rparr>))
     \<and> spec_sample even l r xs (length xs - 1) =
         fst (mix_process (snd (lane_run l (nths (butlast xs) {k. even k}))) (last xs))
     \<and> snd (lane_run l (nths xs {k. even k})) =
         snd (mix_process (snd (lane_run l (nths (butlast xs) {k. even k}))) (last xs))
     \<and> xz1 (snd (lane_run l (nths xs {k. even k}))) = last xs
     \<and> snd (lane_run r (nths xs {k. odd k})) = snd (lane_run r (nths (butlast xs) {k. odd k}))"
proof -
  note o = nths_odd_length [OF assms(3)]
  have ev: "even (length xs - 1)" using assms(3) by simp
  have 1: "spec_sample even l r xs (length xs - 1) =
         fst (mix_process (snd (lane_run l (nths (butlast xs) {k. even k}))) (last xs))"
    using ev o(3,4) by (simp add: spec_sample_def)
  have 2: "snd (lane_run l (nths xs {k. even k})) =
         snd (mix_process (snd (lane_run l (nths (butlast xs) {k. even k}))) (last xs))"
    by (simp add: o(1) lane_run_snoc)
  have 3: "xz1 (snd (lane_run l (nths xs {k. even k}))) = last xs"
    by (simp add: 2 mix_process_xz1)
  have 4: "snd (lane_run r (nths xs {k. odd k})) = snd (lane_run r (nths (butlast xs) {k. odd k}))"
    by (simp add: o(2))
  show ?thesis
    unfolding hpf_process_buffer_def lpf_process_buffer_def parametric_process_buffer_def
    using process_buffer_stereo [OF assms(1,2), of h] process_buffer_stereo [OF assms(1,2), of e]
      1 2 3 4
    by simp
qed

lemma example_stereo_run:
  "process_buffer (Some example_hpf) (Some (example_buffer 2 [1, 1, 1])) =
     Inr (Some (example_hpf\<lparr>left := gain_unit 2\<lparr>xz1 := 1, xz2 := 1, yz1 := 2, yz2 := 2\<rparr>,
                            right := gain_unit 3\<lparr>xz1 := 1, xz2 := 0, yz1 := 3, yz2 := 0\<rparr>\<rparr>),
          Some (example_buffer 2 [2, 3, 2]))"
  by (simp add: process_buffer_def example_buffer_def example_hpf_def
      stereo_loop_dispatch mix_process_def
      biquad_process_at_def gain_unit_def Let_def underflow_check_cases)

theorem stereo_odd_length_witness:
  "channels (example_buffer 2 [1, 1, 1]) = 2
   \<and> data (example_buffer 2 [1, 1, 1]) = Some [1, 1, 1]
   \<and> odd (length [1, 1, 1 :: real])
   \<and> hpf_process_buffer (Some example_hpf) (Some (example_buffer 2 [1, 1, 1])) =
       Inr (Some (example_hpf\<lparr>left := gain_unit 2\<lparr>xz1 := 1, xz2 := 1, yz1 := 2, yz2 := 2\<rparr>,
                              right := gain_unit 3\<lparr>xz1 := 1, xz2 := 0, yz1 := 3, yz2 := 0\<rparr>\<rparr>),
            Some (example_buffer 2 [2, 3, 2]))
   \<and> spec_sample even (gain_unit 2) (gain_unit 3) [1, 1, 1] (length [1, 1, 1 :: real] - 1) = 2
   \<and> xz1 (snd (lane_run (gain_unit 2) (nths [1, 1, 1] {k. even k}))) = 1"
proof -
  have c: "channels (example_buffer 2 [1, 1, 1]) = 2"
    and d: "data (example_buffer 2 [1, 1, 1]) = Some [1, 1, 1]"
    and o: "odd (length [1, 1, 1 :: real])"
    by (simp_all add: example_buffer_def)
  note t = stereo_odd_length [OF c d o, of example_hpf example_peq "gain_unit 2" "gain_unit 3"]
  note t4 = t [THEN conjunct2, THEN conjunct2, THEN conjunct2, THEN conjunct1]
  note t6 = t [THEN conjunct2, THEN conjunct2, THEN conjunct2, THEN conjunct2, THEN conjunct2,
      THEN conjunct1]
  have s: "spec_sample even (gain_unit 2) (gain_unit 3) [1, 1, 1] (length [1, 1, 1 :: real] - 1) = 2"
    by (subst t4) (simp add: nths_Cons mix_process_def biquad_process_at_def gain_unit_def
        Let_def underflow_check_cases)
  have x: "xz1 (snd (lane_run (gain_unit 2) (nths [1, 1, 1] {k. even k}))) = 1"
    by (subst t6) simp
  show ?thesis
    using c d o s x example_stereo_run by (simp add: hpf_process_buffer_def)
qed

text \<open>
  The claim as the specification states it says that the final sample of such a buffer
  stays as it was. On the buffer \<open>[1, 1, 1]\<close> with a lane 0 unit of gain 2 and a lane 1
  unit of gain 3 the final sample becomes 2, and lane 0 has run twice.
\<close>

theorem stereo_odd_counterexample:
  "hpf_process_buffer (Some example_hpf) (Some (example_buffer 2 [1, 1, 1])) =
     Inr (Some (example_hpf\<lparr>left := gain_unit 2\<lparr>xz1 := 1, xz2 := 1, yz1 := 2, yz2 := 2\<rparr>,
                            right := gain_unit 3\<lparr>xz1 := 1, xz2 := 0, yz1 := 3, yz2 := 0\<rparr>\<rparr>),
          Some (example_buffer 2 [2, 3, 2]))
   \<and> [2, 3, 2] ! 2 \<noteq> [1, 1, 1 :: real] ! 2"
  by (simp add: hpf_process_buffer_def process_buffer_def example_buffer_def example_hpf_def
      stereo_loop_dispatch mix_process_def
      biquad_process_at_def gain_unit_def Let_def underflow_check_cases)

section \<open>The dispatch on more than two channels\<close>

lemma example_multi_run:
  "process_buffer (Some example_hpf) (Some (example_buffer 3 [1, 1, 1, 1])) =
     Inr (Some (example_hpf\<lparr>left := gain_unit 2\<lparr>xz1 := 1, xz2 := 1, yz1 := 2, yz2 := 2\<rparr>,
                            right := gain_unit 3\<lparr>xz1 := 1, xz2 := 0, yz1 := 3, yz2 := 0\<rparr>\<rparr>),
          Some (example_buffer 3 [2, 3, 2, 2]))"
proof -
  have nz: "size_t_of_int 3 \<noteq> 0" by (simp add: size_t_of_int_def)
  have l: "multi_lane 3 = (\<lambda>i. even (i mod nat 3))"
    by (rule multi_lane_small) simp_all
  show ?thesis
    by (simp add: process_buffer_def example_buffer_def example_hpf_def
      multi_loop_dispatch [OF nz] l mix_process_def
      biquad_process_at_def gain_unit_def Let_def underflow_check_cases)
qed

text \<open>
  C6. For every filter instance and every buffer with \<open>N > 2\<close> channels (\<open>N\<close> an
  \<^verbatim>\<open>int\<close>, so below \<open>2 ^ 31\<close>), \<open>process_buffer\<close> gives the sample at index \<open>i\<close> the
  channel \<open>i mod N\<close>, sends it through lane 0 when that channel is even and through
  lane 1 when it is odd, and writes back \<open>process(input) * c0 + input * d0\<close>
  (\<open>spec_sample\<close>, by \<open>mix_process\<close>). The unit of a lane is in the state it has after
  the earlier samples of all channels of the same parity, so the even channels share
  the running state of lane 0 and the odd channels that of lane 1; after the call each
  lane holds the state of its run over all its samples.
\<close>

theorem multi_channel_dispatch:
  assumes "2 < channels buf" and "channels buf < 2 ^ 31" and "data buf = Some xs"
  shows
    "hpf_process_buffer (Some h) (Some buf) =
       Inr (Some (h\<lparr>left := snd (lane_run (left h) (nths xs {k. even (k mod nat (channels buf))})),
                    right := snd (lane_run (right h) (nths xs {k. odd (k mod nat (channels buf))}))\<rparr>),
            Some (buf\<lparr>data := Some (map (spec_sample (\<lambda>i. even (i mod nat (channels buf)))
                                          (left h) (right h) xs) [0..<length xs])\<rparr>))
     \<and> lpf_process_buffer (Some h) (Some buf) =
       Inr (Some (h\<lparr>left := snd (lane_run (left h) (nths xs {k. even (k mod nat (channels buf))})),
                    right := snd (lane_run (right h) (nths xs {k. odd (k mod nat (channels buf))}))\<rparr>),
            Some (buf\<lparr>data := Some (map (spec_sample (\<lambda>i. even (i mod nat (channels buf)))
                                          (left h) (right h) xs) [0..<length xs])\<rparr>))
     \<and> parametric_process_buffer (Some e) (Some buf) =
       Inr (Some (e\<lparr>left := snd (lane_run (left e) (nths xs {k. even (k mod nat (channels buf))})),
                    right := snd (lane_run (right e) (nths xs {k. odd (k mod nat (channels buf))}))\<rparr>),
            Some (buf\<lparr>data := Some (map (spec_sample (\<lambda>i. even (i mod nat (channels buf)))
                                          (left e) (right e) xs) [0..<length xs])\<rparr>))"
  unfolding hpf_process_buffer_def lpf_process_buffer_def parametric_process_buffer_def
  using process_buffer_multi [OF assms, of h] process_buffer_multi [OF assms, of e]
  by simp

theorem multi_channel_dispatch_witness:
  "2 < channels (example_buffer 3 [1, 1, 1, 1])
   \<and> channels (example_buffer 3 [1, 1, 1, 1]) < 2 ^ 31
   \<and> data (example_buffer 3 [1, 1, 1, 1]) = Some [1, 1, 1, 1]
   \<and> hpf_process_buffer (Some example_hpf) (Some (example_buffer 3 [1, 1, 1, 1])) =
       Inr (Some (example_hpf\<lparr>left := gain_unit 2\<lparr>xz1 := 1, xz2 := 1, yz1 := 2, yz2 := 2\<rparr>,
                              right := gain_unit 3\<lparr>xz1 := 1, xz2 := 0, yz1 := 3, yz2 := 0\<rparr>\<rparr>),
            Some (example_buffer 3 [2, 3, 2, 2]))
   \<and> map (spec_sample (\<lambda>i. even (i mod nat (channels (example_buffer 3 [1, 1, 1, 1]))))
          (left example_hpf) (right example_hpf) [1, 1, 1, 1]) [0..<length [1, 1, 1, 1 :: real]]
       = [2, 3, 2, 2]"
proof -
  have c: "2 < channels (example_buffer 3 [1, 1, 1, 1])"
    and b: "channels (example_buffer 3 [1, 1, 1, 1]) < 2 ^ 31"
    and d: "data (example_buffer 3 [1, 1, 1, 1]) = Some [1, 1, 1, 1]"
    by (simp_all add: example_buffer_def)
  note t = multi_channel_dispatch [OF c b d, of example_hpf example_peq, THEN conjunct1]
  have r: "hpf_process_buffer (Some example_hpf) (Some (example_buffer 3 [1, 1, 1, 1])) =
       Inr (Some (example_hpf\<lparr>left := gain_unit 2\<lparr>xz1 := 1, xz2 := 1, yz1 := 2, yz2 := 2\<rparr>,
                              right := gain_unit 3\<lparr>xz1 := 1, xz2 := 0, yz1 := 3, yz2 := 0\<rparr>\<rparr>),
            Some (example_buffer 3 [2, 3, 2, 2]))"
    using example_multi_run by (simp add: hpf_process_buffer_def)
  have "data (example_buffer 3 [1, 1, 1, 1]
          \<lparr>data := Some (map (spec_sample (\<lambda>i. even (i mod nat (channels (example_buffer 3 [1, 1, 1, 1]))))
          (left example_hpf) (right example_hpf) [1, 1, 1, 1]) [0..<length [1, 1, 1, 1 :: real]])\<rparr>)
      = data (example_buffer 3 [2, 3, 2, 2])"
    using t r by simp
  then have m: "map (spec_sample (\<lambda>i. even (i mod nat (channels (example_buffer 3 [1, 1, 1, 1]))))
          (left example_hpf) (right example_hpf) [1, 1, 1, 1]) [0..<length [1, 1, 1, 1 :: real]]
       = [2, 3, 2, 2]"
    by (simp add: example_buffer_def)
  show ?thesis using c b d r m by blast
qed

section \<open>Calls of the dispatcher that do nothing\<close>

text \<open>
  C9. For every filter instance, \<open>process_buffer\<close> with a null instance, a null
  buffer, a buffer whose data pointer is null, or a buffer of length zero returns
  with no fault and leaves the buffer and both lanes of the instance as they were.
\<close>

theorem process_buffer_degenerate:
  "hpf_process_buffer None buffer = Inr (None, buffer)
   \<and> hpf_process_buffer hpf None = Inr (hpf, None)
   \<and> (data buf = None \<or> data buf = Some [] \<longrightarrow>
        hpf_process_buffer hpf (Some buf) = Inr (hpf, Some buf))
   \<and> lpf_process_buffer None buffer = Inr (None, buffer)
   \<and> lpf_process_buffer lpf None = Inr (lpf, None)
   \<and> (data buf = None \<or> data buf = Some [] \<longrightarrow>
        lpf_process_buffer lpf (Some buf) = Inr (lpf, Some buf))
   \<and> parametric_process_buffer None buffer = Inr (None, buffer)
   \<and> parametric_process_buffer peq None = Inr (peq, None)
   \<and> (data buf = None \<or> data buf = Some [] \<longrightarrow>
        parametric_process_buffer peq (Some buf) = Inr (peq, Some buf))"
  unfolding hpf_process_buffer_def lpf_process_buffer_def parametric_process_buffer_def
  by (auto simp: process_buffer_noop)

theorem process_buffer_degenerate_witness:
  "hpf_process_buffer (Some example_hpf) (Some (example_buffer 2 [])) =
     Inr (Some example_hpf, Some (example_buffer 2 []))
   \<and> lpf_process_buffer (Some example_hpf) (Some (example_buffer 1 [])) =
     Inr (Some example_hpf, Some (example_buffer 1 []))
   \<and> parametric_process_buffer (Some example_peq) (Some (example_buffer 0 [])) =
     Inr (Some example_peq, Some (example_buffer 0 []))
   \<and> hpf_process_buffer (Some example_hpf)
        (Some \<lparr>data = None, sample_rate = 44100, channels = 2, bit_depth = 16\<rparr>) =
     Inr (Some example_hpf, Some \<lparr>data = None, sample_rate = 44100, channels = 2, bit_depth = 16\<rparr>)"
  using process_buffer_degenerate [of None "Some example_hpf" "example_buffer 2 []" "Some example_hpf" "Some example_peq"]
    process_buffer_degenerate [of None "Some example_hpf" "example_buffer 1 []" "Some example_hpf" "Some example_peq"]
    process_buffer_degenerate [of None "Some example_hpf" "example_buffer 0 []" "Some example_hpf" "Some example_peq"]
    process_buffer_degenerate [of None "Some example_hpf"
       "\<lparr>data = None, sample_rate = 44100, channels = 2, bit_depth = 16\<rparr>" "Some example_hpf" "Some example_peq"]
  by (simp add: example_buffer_def)

section \<open>The filter designs\<close>

lemma tan_pos_below_nyquist:
  fixes f sr :: real
  assumes "0 < f" and "f < sr / 2"
  shows "0 < tan (pi * f / sr)"
proof -
  have sr: "0 < sr" using assms by linarith
  have lo: "0 < pi * f / sr" using assms sr by simp
  have "f / sr < 1 / 2" using assms sr by (simp add: field_simps)
  then have "pi * (f / sr) < pi * (1 / 2)" by (intro mult_strict_left_mono) simp_all
  then have hi: "pi * f / sr < pi / 2" by simp
  from lo hi show ?thesis by (rule tan_gt_zero)
qed

lemma hpf_design_eq:
  "hpf_calculate_butterworth_coefficients (Some b) sr f =
     (let C = tan (pi * f / sr);
          A0 = 1 / (1 + sqrt 2 * C + C\<^sup>2)
      in Some \<lparr>a0 = A0, a1 = - 2 * A0, a2 = A0,
                b1 = 2 * A0 * (C\<^sup>2 - 1), b2 = A0 * (1 - sqrt 2 * C + C\<^sup>2),
                c0 = 1, d0 = 0, xz1 = 0, xz2 = 0, yz1 = 0, yz2 = 0\<rparr>)"
  by (cases b)
     (simp add: hpf_calculate_butterworth_coefficients_def biquad_flush_delays_def Let_def
        power2_eq_square)

lemma lpf_design_eq:
  "lpf_calculate_butterworth_coefficients (Some b) sr f =
     (let C = 1 / tan (pi * f / sr);
          A0 = 1 / (1 + sqrt 2 * C + C\<^sup>2)
      in Some \<lparr>a0 = A0, a1 = 2 * A0, a2 = A0,
                b1 = 2 * A0 * (1 - C\<^sup>2), b2 = A0 * (1 - sqrt 2 * C + C\<^sup>2),
                c0 = 1, d0 = 0, xz1 = 0, xz2 = 0, yz1 = 0, yz2 = 0\<rparr>)"
  by (cases b)
     (simp add: lpf_calculate_butterworth_coefficients_def biquad_flush_delays_def Let_def
        power2_eq_square)

text \<open>
  C3. For every sample rate and every cutoff \<open>f\<close> with \<open>0 < f < sample_rate / 2\<close>:
  the high-pass design gives, with \<open>C = tan (pi f / sample_rate)\<close>,
  \<open>a0 = 1 / (1 + sqrt 2 C + C^2)\<close>, \<open>a1 = - 2 a0\<close>, \<open>a2 = a0\<close>,
  \<open>b1 = 2 a0 (C^2 - 1)\<close>, \<open>b2 = a0 (1 - sqrt 2 C + C^2)\<close>; the low-pass design gives,
  with \<open>C = 1 / tan (pi f / sample_rate)\<close>, the same \<open>a0\<close>, \<open>a2\<close> and \<open>b2\<close>,
  \<open>a1 = 2 a0\<close> and \<open>b1 = 2 a0 (1 - C^2)\<close>; both set \<open>c0 = 1\<close>, \<open>d0 = 0\<close> and leave
  the four delays at zero. In that range the tangent is positive, so no divisor of
  the formulas is zero.
\<close>

theorem butterworth_design:
  fixes f sr :: real
  assumes "0 < f" and "f < sr / 2"
  shows "0 < tan (pi * f / sr)
       \<and> hpf_calculate_butterworth_coefficients (Some b) sr f =
           (let C = tan (pi * f / sr);
                A0 = 1 / (1 + sqrt 2 * C + C\<^sup>2)
            in Some \<lparr>a0 = A0, a1 = - 2 * A0, a2 = A0,
                      b1 = 2 * A0 * (C\<^sup>2 - 1), b2 = A0 * (1 - sqrt 2 * C + C\<^sup>2),
                      c0 = 1, d0 = 0, xz1 = 0, xz2 = 0, yz1 = 0, yz2 = 0\<rparr>)
       \<and> lpf_calculate_butterworth_coefficients (Some b) sr f =
           (let C = 1 / tan (pi * f / sr);
                A0 = 1 / (1 + sqrt 2 * C + C\<^sup>2)
            in Some \<lparr>a0 = A0, a1 = 2 * A0, a2 = A0,
                      b1 = 2 * A0 * (1 - C\<^sup>2), b2 = A0 * (1 - sqrt 2 * C + C\<^sup>2),
                      c0 = 1, d0 = 0, xz1 = 0, xz2 = 0, yz1 = 0, yz2 = 0\<rparr>)"
  using tan_pos_below_nyquist [OF assms] hpf_design_eq [of b sr f] lpf_design_eq [of b sr f]
  by simp

theorem butterworth_design_witness:
  "(0::real) < 1 \<and> (1::real) < 4 / 2
   \<and> hpf_calculate_butterworth_coefficients (Some unit0) 4 1 =
       Some \<lparr>a0 = 1 / (2 + sqrt 2), a1 = - (2 / (2 + sqrt 2)), a2 = 1 / (2 + sqrt 2),
             b1 = 0, b2 = (2 - sqrt 2) / (2 + sqrt 2),
             c0 = 1, d0 = 0, xz1 = 0, xz2 = 0, yz1 = 0, yz2 = 0\<rparr>
   \<and> lpf_calculate_butterworth_coefficients (Some unit0) 4 1 =
       Some \<lparr>a0 = 1 / (2 + sqrt 2), a1 = 2 / (2 + sqrt 2), a2 = 1 / (2 + sqrt 2),
             b1 = 0, b2 = (2 - sqrt 2) / (2 + sqrt 2),
             c0 = 1, d0 = 0, xz1 = 0, xz2 = 0, yz1 = 0, yz2 = 0\<rparr>"
  using butterworth_design [of 1 4 unit0] by (simp add: Let_def tan_45)

text \<open>
  Below the Nyquist frequency, with \<open>Q > 0\<close>, the sample rate is not zero, the
  tangent is defined and the divisors \<open>D0\<close> and \<open>E0\<close> are positive, at every gain.
\<close>

lemma parametric_divisors_below_nyquist:
  fixes f sr Q :: real
  assumes "0 < f" and "f < sr / 2" and "0 < Q"
  shows "sr \<noteq> 0"
    and "cos (pi * f / sr) \<noteq> 0"
    and "0 < 1 + tan (pi * f / sr) / Q + (tan (pi * f / sr))\<^sup>2"
    and "0 < 1 + tan (pi * f / sr) / (10 powr (g / 20) * Q) + (tan (pi * f / sr))\<^sup>2"
proof -
  have sr: "0 < sr" using assms by linarith
  then show "sr \<noteq> 0" by simp
  have lo: "0 < pi * f / sr" using assms sr by simp
  have "f / sr < 1 / 2" using assms sr by (simp add: field_simps)
  then have "pi * (f / sr) < pi * (1 / 2)" by (intro mult_strict_left_mono) simp_all
  then have hi: "pi * f / sr < pi / 2" by simp
  have "0 < cos (pi * f / sr)" using lo hi by (intro cos_gt_zero) simp_all
  then show "cos (pi * f / sr) \<noteq> 0" by simp
  have t: "0 < tan (pi * f / sr)" using assms(1,2) by (rule tan_pos_below_nyquist)
  have v: "0 < 10 powr (g / 20) * Q" using assms(3) by simp
  have "0 < tan (pi * f / sr) / Q" using t assms(3) by simp
  then show "0 < 1 + tan (pi * f / sr) / Q + (tan (pi * f / sr))\<^sup>2"
    by (smt (verit) zero_le_power2)
  have "0 < tan (pi * f / sr) / (10 powr (g / 20) * Q)" using t v by simp
  then show "0 < 1 + tan (pi * f / sr) / (10 powr (g / 20) * Q) + (tan (pi * f / sr))\<^sup>2"
    by (smt (verit) zero_le_power2)
qed

text \<open>
  C4. For every sample rate, centre frequency \<open>f\<close>, gain \<open>g\<close> in dB and \<open>Q > 0\<close>
  at which every division of the design has a value (the sample rate is not zero,
  the tangent is defined, and the divisor of the branch taken, \<open>D0\<close> for \<open>g \<ge> 0\<close> and
  \<open>E0\<close> for \<open>g < 0\<close>, is not zero), the parametric design computes
  \<open>K = tan (pi f / sample_rate)\<close> and \<open>V0 = 10^(g / 20)\<close>, sets \<open>a0 = A / D0\<close>,
  \<open>a1 = B / D0\<close>, \<open>a2 = G / D0\<close>, \<open>b1 = B / D0\<close>, \<open>b2 = D / D0\<close> when \<open>g \<ge> 0\<close> and
  \<open>a0 = D0 / E0\<close>, \<open>a1 = B / E0\<close>, \<open>a2 = D / E0\<close>, \<open>b1 = B / E0\<close>, \<open>b2 = E / E0\<close> when
  \<open>g < 0\<close>, and then sets \<open>c0 = 1\<close>, \<open>d0 = 0\<close> and the four delays to zero. The
  divisors \<open>Q\<close> and \<open>V0 Q\<close> are positive. At the other inputs the code divides by zero
  or takes the tangent at its pole, and its coefficients are infinities or NaN, which
  the reals do not have.
\<close>

theorem parametric_design:
  fixes Q :: real
  assumes "0 < Q" and "sr \<noteq> 0" and "cos (pi * f / sr) \<noteq> 0"
    and "0 \<le> g \<Longrightarrow> 1 + tan (pi * f / sr) / Q + (tan (pi * f / sr))\<^sup>2 \<noteq> 0"
    and "g < 0 \<Longrightarrow>
           1 + tan (pi * f / sr) / (10 powr (g / 20) * Q) + (tan (pi * f / sr))\<^sup>2 \<noteq> 0"
  shows "0 < 10 powr (g / 20) * Q
       \<and> calculate_parametric_coefficients (Some b) sr f g Q =
           (let K = tan (pi * f / sr);
                V0 = 10 powr (g / 20);
                D0 = 1 + K / Q + K\<^sup>2;
                E0 = 1 + K / (V0 * Q) + K\<^sup>2;
                A = 1 + (V0 / Q) * K + K\<^sup>2;
                B = 2 * (K\<^sup>2 - 1);
                G = 1 - (V0 / Q) * K + K\<^sup>2;
                D = 1 - K / Q + K\<^sup>2;
                E = 1 - K / (V0 * Q) + K\<^sup>2
            in Some (if 0 \<le> g
                     then \<lparr>a0 = A / D0, a1 = B / D0, a2 = G / D0, b1 = B / D0, b2 = D / D0,
                           c0 = 1, d0 = 0, xz1 = 0, xz2 = 0, yz1 = 0, yz2 = 0\<rparr>
                     else \<lparr>a0 = D0 / E0, a1 = B / E0, a2 = D / E0, b1 = B / E0, b2 = E / E0,
                           c0 = 1, d0 = 0, xz1 = 0, xz2 = 0, yz1 = 0, yz2 = 0\<rparr>))"
  using assms(1)
  by (cases b)
     (simp add: calculate_parametric_coefficients_def parametric_formulas_def
        biquad_flush_delays_def Let_def power2_eq_square)

theorem parametric_design_witness:
  "(0::real) < 1 \<and> (4::real) \<noteq> 0 \<and> cos (pi * 1 / 4) \<noteq> 0
   \<and> 1 + tan (pi * 1 / 4) / 1 + (tan (pi * 1 / 4))\<^sup>2 \<noteq> 0
   \<and> 1 + tan (pi * 1 / 4) / (10 powr (- 20 / 20) * 1) + (tan (pi * 1 / 4))\<^sup>2 \<noteq> 0
   \<and> calculate_parametric_coefficients (Some unit0) 4 1 0 1 =
       Some \<lparr>a0 = 1, a1 = 0, a2 = 1 / 3, b1 = 0, b2 = 1 / 3,
             c0 = 1, d0 = 0, xz1 = 0, xz2 = 0, yz1 = 0, yz2 = 0\<rparr>
   \<and> calculate_parametric_coefficients (Some unit0) 4 1 (- 20) 1 =
       Some \<lparr>a0 = 1 / 4, a1 = 0, a2 = 1 / 12, b1 = 0, b2 = - (2 / 3),
             c0 = 1, d0 = 0, xz1 = 0, xz2 = 0, yz1 = 0, yz2 = 0\<rparr>"
proof -
  have q: "(0::real) < 1" and s: "(4::real) \<noteq> 0" by simp_all
  have c: "cos (pi * 1 / 4) \<noteq> 0" by (simp add: cos_45)
  have d: "1 + tan (pi * 1 / 4) / 1 + (tan (pi * 1 / 4))\<^sup>2 \<noteq> 0"
    by (simp add: tan_45)
  have e: "1 + tan (pi * 1 / 4) / (10 powr (- 20 / 20) * 1) + (tan (pi * 1 / 4))\<^sup>2 \<noteq> 0"
    by (simp add: tan_45 powr_minus_divide)
  have boost: "calculate_parametric_coefficients (Some unit0) 4 1 0 1 =
       Some \<lparr>a0 = 1, a1 = 0, a2 = 1 / 3, b1 = 0, b2 = 1 / 3,
             c0 = 1, d0 = 0, xz1 = 0, xz2 = 0, yz1 = 0, yz2 = 0\<rparr>"
    using parametric_design [OF q s c, of 0 unit0] d
    by (simp add: Let_def tan_45)
  have cut: "calculate_parametric_coefficients (Some unit0) 4 1 (- 20) 1 =
       Some \<lparr>a0 = 1 / 4, a1 = 0, a2 = 1 / 12, b1 = 0, b2 = - (2 / 3),
             c0 = 1, d0 = 0, xz1 = 0, xz2 = 0, yz1 = 0, yz2 = 0\<rparr>"
    using parametric_design [OF q s c, of "- 20" unit0] e
    by (simp add: Let_def tan_45 powr_minus_divide)
  from q s c d e boost cut show ?thesis by blast
qed

text \<open>
  C5. At gain \<open>g = 0\<close> the boost branch and the cut branch of the parametric design
  agree: for every sample rate, centre frequency and \<open>Q > 0\<close> the five coefficients
  of the boost formulas at \<open>g = 0\<close> are those of the cut formulas at \<open>g = 0\<close>, exactly,
  the arithmetic being that of the reals.
\<close>

theorem parametric_boost_cut_agree:
  fixes Q :: real
  assumes "0 < Q"
  shows "parametric_formulas True b sr f 0 Q = parametric_formulas False b sr f 0 Q"
  by (simp add: parametric_formulas_def Let_def)

theorem parametric_boost_cut_agree_witness:
  "(0::real) < 1
   \<and> parametric_formulas True unit0 4 1 0 1 = parametric_formulas False unit0 4 1 0 1
   \<and> parametric_formulas False unit0 4 1 0 1 = unit0\<lparr>a0 := 1, a1 := 0, a2 := 1 / 3, b1 := 0, b2 := 1 / 3\<rparr>"
  using parametric_boost_cut_agree [of 1 unit0 4 1]
  by (simp add: parametric_formulas_def Let_def tan_45)

text \<open>
  The two one-sided limits, over the reals: where \<open>K \<ge> 0\<close> (so that \<open>D0 \<ge> 1\<close>)
  every coefficient of either branch is continuous in the gain at 0, hence the cut
  branch from the left and the boost branch from the right tend to the common value.
\<close>

lemma parametric_formulas_continuous:
  fixes Q :: real
  assumes "0 < Q" and "0 \<le> tan ((pi * f) / sr)"
  shows "isCont (\<lambda>g. a0 (parametric_formulas boost b sr f g Q)) 0
       \<and> isCont (\<lambda>g. a1 (parametric_formulas boost b sr f g Q)) 0
       \<and> isCont (\<lambda>g. a2 (parametric_formulas boost b sr f g Q)) 0
       \<and> isCont (\<lambda>g. b1 (parametric_formulas boost b sr f g Q)) 0
       \<and> isCont (\<lambda>g. b2 (parametric_formulas boost b sr f g Q)) 0"
proof -
  let ?K = "tan ((pi * f) / sr)"
  have "0 \<le> 1 / Q * ?K" and "0 \<le> ?K * ?K" using assms by simp_all
  then have D0: "1 + 1 / Q * ?K + ?K * ?K \<noteq> 0" by linarith
  show ?thesis
  proof (cases boost)
    case True
    then show ?thesis using assms D0
      by (auto simp: parametric_formulas_def Let_def intro!: continuous_intros)
  next
    case False
    then show ?thesis using assms D0
      by (auto simp: parametric_formulas_def Let_def intro!: continuous_intros)
  qed
qed

lemma parametric_one_sided_limits:
  fixes Q :: real
  assumes "0 < Q" and "0 \<le> tan ((pi * f) / sr)"
    and "sel = a0 \<or> sel = a1 \<or> sel = a2 \<or> sel = b1 \<or> sel = b2"
  shows "((\<lambda>g. sel (parametric_formulas False b sr f g Q))
            \<longlongrightarrow> sel (parametric_formulas True b sr f 0 Q)) (at_left 0)"
    and "((\<lambda>g. sel (parametric_formulas True b sr f g Q))
            \<longlongrightarrow> sel (parametric_formulas True b sr f 0 Q)) (at_right 0)"
proof -
  have e: "parametric_formulas True b sr f 0 Q = parametric_formulas False b sr f 0 Q"
    by (simp add: parametric_formulas_def Let_def)
  have c: "isCont (\<lambda>g. sel (parametric_formulas boost b sr f g Q)) 0" for boost
    using parametric_formulas_continuous [OF assms(1,2), of boost b] assms(3) by blast
  show "((\<lambda>g. sel (parametric_formulas False b sr f g Q))
            \<longlongrightarrow> sel (parametric_formulas True b sr f 0 Q)) (at_left 0)"
    unfolding e using c [of False] by (simp add: isCont_def filterlim_at_split)
  show "((\<lambda>g. sel (parametric_formulas True b sr f g Q))
            \<longlongrightarrow> sel (parametric_formulas True b sr f 0 Q)) (at_right 0)"
    using c [of True] by (simp add: isCont_def filterlim_at_split)
qed

section \<open>The delay invariant\<close>

lemma biquad_process_Some:
  "biquad_process (Some b) x = (fst (biquad_process_at b x), Some (snd (biquad_process_at b x)))"
  by (simp add: biquad_process_def)

lemma process_seq_snoc:
  "process_seq bq (xs @ [x]) =
     (fst (process_seq bq xs) @ [fst (biquad_process (snd (process_seq bq xs)) x)],
      snd (biquad_process (snd (process_seq bq xs)) x))"
  by (induction xs arbitrary: bq) simp_all

lemma process_seq_length: "length (fst (process_seq bq xs)) = length xs"
  by (induction xs arbitrary: bq) simp_all

lemma process_seq_unit: "\<exists>b'. snd (process_seq (Some b) xs) = Some b'"
  by (induction xs arbitrary: b) (simp_all add: biquad_process_Some)

lemma biquad_process_at_delays:
  "xz1 (snd (biquad_process_at b x)) = x"
  "xz2 (snd (biquad_process_at b x)) = xz1 b"
  "yz1 (snd (biquad_process_at b x)) = fst (biquad_process_at b x)"
  "yz2 (snd (biquad_process_at b x)) = yz1 b"
  by (simp_all add: biquad_process_at_def Let_def)

lemma delay_invariant_step:
  assumes "delay_invariant u xs ys"
  shows "delay_invariant (snd (biquad_process_at u x)) (xs @ [x]) (ys @ [fst (biquad_process_at u x)])"
proof -
  have "xs \<noteq> []" and "ys \<noteq> []" using assms by (auto simp: delay_invariant_def)
  then show ?thesis
    using assms by (simp add: delay_invariant_def biquad_process_at_delays butlast_append)
qed

lemma delay_invariant_two:
  "delay_invariant (snd (biquad_process_at (snd (biquad_process_at b x1)) x2))
     (xs @ [x1, x2])
     (ys @ [fst (biquad_process_at b x1), fst (biquad_process_at (snd (biquad_process_at b x1)) x2)])
   \<longleftrightarrow> length ys = length xs"
  by (simp add: delay_invariant_def biquad_process_at_delays butlast_append)

lemma two_last:
  assumes "2 \<le> length (xs :: 'a list)"
  obtains zs x1 x2 where "xs = zs @ [x1, x2]"
proof -
  from assms have "xs \<noteq> []" by auto
  then obtain ws x2 where ws: "xs = ws @ [x2]" by (metis append_butlast_last_id)
  with assms have "ws \<noteq> []" by auto
  then obtain zs x1 where "ws = zs @ [x1]" by (metis append_butlast_last_id)
  with ws have "xs = zs @ [x1, x2]" by simp
  then show ?thesis by (rule that)
qed

text \<open>
  C7. Starting from flushed delays, for every setting of the coefficients and every
  input sequence of length \<open>N \<ge> 2\<close>, after \<open>N\<close> calls of \<open>biquad_process\<close> the unit
  holds in \<open>xz1\<close>, \<open>xz2\<close> the two most recent inputs and in \<open>yz1\<close>, \<open>yz2\<close> the two most
  recent returned samples, the most recent first (\<open>delay_invariant\<close>); and every
  further call keeps this invariant, for the sequences extended by its input and its
  returned sample.
\<close>

theorem delay_invariant_established_and_kept:
  "(2 \<le> length xs \<longrightarrow>
      (\<exists>b'. process_seq (biquad_flush_delays (Some b)) xs
               = (fst (process_seq (biquad_flush_delays (Some b)) xs), Some b')
           \<and> delay_invariant b' xs (fst (process_seq (biquad_flush_delays (Some b)) xs))))
   \<and> (delay_invariant u xs ys \<longrightarrow>
      (\<exists>u'. biquad_process (Some u) x = (fst (biquad_process (Some u) x), Some u')
           \<and> delay_invariant u' (xs @ [x]) (ys @ [fst (biquad_process (Some u) x)])))"
proof (intro conjI impI)
  assume len: "2 \<le> length xs"
  let ?f = "biquad_flush_delays (Some b)"
  obtain f where f: "?f = Some f" by (simp add: biquad_flush_delays_def)
  obtain zs x1 x2 where xs: "xs = zs @ [x1, x2]" using len by (rule two_last)
  obtain c where c: "snd (process_seq (Some f) zs) = Some c"
    using process_seq_unit by blast
  let ?c1 = "snd (biquad_process_at c x1)"
  let ?c2 = "snd (biquad_process_at ?c1 x2)"
  have split: "zs @ [x1, x2] = (zs @ [x1]) @ [x2]" by simp
  have run: "process_seq (Some f) xs =
      (fst (process_seq (Some f) zs) @ [fst (biquad_process_at c x1), fst (biquad_process_at ?c1 x2)],
       Some ?c2)"
    unfolding xs split by (simp add: process_seq_snoc c biquad_process_Some del: append_assoc)
  have inv: "delay_invariant ?c2 xs
      (fst (process_seq (Some f) zs) @ [fst (biquad_process_at c x1), fst (biquad_process_at ?c1 x2)])"
    unfolding xs by (simp add: delay_invariant_two process_seq_length)
  show "\<exists>b'. process_seq ?f xs = (fst (process_seq ?f xs), Some b')
           \<and> delay_invariant b' xs (fst (process_seq ?f xs))"
    unfolding f using run inv by simp
next
  assume "delay_invariant u xs ys"
  then show "\<exists>u'. biquad_process (Some u) x = (fst (biquad_process (Some u) x), Some u')
           \<and> delay_invariant u' (xs @ [x]) (ys @ [fst (biquad_process (Some u) x)])"
    using delay_invariant_step [of u xs ys x] by (simp add: biquad_process_Some)
qed


lemma example_seq_run:
  "process_seq (biquad_flush_delays (Some (gain_unit 2))) [1, 3] =
     ([2, 6], Some (gain_unit 2\<lparr>xz1 := 3, xz2 := 1, yz1 := 6, yz2 := 2\<rparr>))"
  "biquad_process (Some (gain_unit 2\<lparr>xz1 := 3, xz2 := 1, yz1 := 6, yz2 := 2\<rparr>)) 5 =
     (10, Some (gain_unit 2\<lparr>xz1 := 5, xz2 := 3, yz1 := 10, yz2 := 6\<rparr>))"
  by (simp_all add: biquad_flush_delays_def biquad_process_def biquad_process_at_def
      gain_unit_def Let_def underflow_check_cases)

theorem delay_invariant_witness:
  "2 \<le> length [1, 3 :: real]
   \<and> process_seq (biquad_flush_delays (Some (gain_unit 2))) [1, 3] =
       ([2, 6], Some (gain_unit 2\<lparr>xz1 := 3, xz2 := 1, yz1 := 6, yz2 := 2\<rparr>))
   \<and> delay_invariant (gain_unit 2\<lparr>xz1 := 3, xz2 := 1, yz1 := 6, yz2 := 2\<rparr>) [1, 3] [2, 6]
   \<and> biquad_process (Some (gain_unit 2\<lparr>xz1 := 3, xz2 := 1, yz1 := 6, yz2 := 2\<rparr>)) 5 =
       (10, Some (gain_unit 2\<lparr>xz1 := 5, xz2 := 3, yz1 := 10, yz2 := 6\<rparr>))
   \<and> delay_invariant (gain_unit 2\<lparr>xz1 := 5, xz2 := 3, yz1 := 10, yz2 := 6\<rparr>)
         ([1, 3] @ [5]) ([2, 6] @ [10])"
proof -
  let ?u = "gain_unit 2\<lparr>xz1 := 3, xz2 := 1, yz1 := 6, yz2 := 2\<rparr>"
  note t = delay_invariant_established_and_kept [of "[1, 3]" "gain_unit 2" ?u "[2, 6]" 5,
      unfolded example_seq_run]
  have len: "2 \<le> length [1, 3 :: real]" by simp
  from t len have a: "delay_invariant ?u [1, 3] [2, 6]"
    by simp
  from t a have b: "delay_invariant (gain_unit 2\<lparr>xz1 := 5, xz2 := 3, yz1 := 10, yz2 := 6\<rparr>)
         ([1, 3] @ [5]) ([2, 6] @ [10])"
    by simp
  show ?thesis using len a b example_seq_run by blast
qed

section \<open>The MLIR backend against the scalar unit\<close>

lemma jit_biquad_process_eq:
  "jit_biquad_process (a0 b) (a1 b) (a2 b) (b1 b) (b2 b) x (xz1 b) (xz2 b) (yz1 b) (yz2 b) =
     a0 b * x + a1 b * xz1 b + a2 b * xz2 b - b1 b * yz1 b - b2 b * yz2 b"
  by (simp add: jit_biquad_process_def Let_def)

lemma mlir_biquad_process_single:
  assumes "process_fn j"
  shows "fst (mlir_biquad_process (Some j) (Some b) x) = fst (biquad_process (Some b) x)"
    and "snd (mlir_biquad_process (Some j) (Some b) x) =
           Some (snd (biquad_process_at b x)
                   \<lparr>yz1 := a0 b * x + a1 b * xz1 b + a2 b * xz2 b - b1 b * yz1 b - b2 b * yz2 b\<rparr>)"
  using assms
  by (simp_all add: mlir_biquad_process_def biquad_process_def biquad_process_at_def
      jit_biquad_process_eq Let_def)

text \<open>
  Away from the underflow window the backend agrees with the scalar unit, over the
  reals: when no sample of the run is clamped, the per-sample path and the compiled
  buffer path give the outputs and the final unit of the sequence of scalar calls.
\<close>

lemma mlir_process_seq_agrees:
  assumes "process_fn j"
  shows "no_underflow b xs \<Longrightarrow>
         mlir_process_seq (Some j) (Some b) xs = process_seq (Some b) xs"
proof (induction xs arbitrary: b)
  case Nil
  show ?case by simp
next
  case (Cons x xs)
  from Cons.prems have u: "underflow_check (a0 b * x + a1 b * xz1 b + a2 b * xz2 b - b1 b * yz1 b - b2 b * yz2 b)
        = a0 b * x + a1 b * xz1 b + a2 b * xz2 b - b1 b * yz1 b - b2 b * yz2 b"
    and n: "no_underflow (snd (biquad_process_at b x)) xs" by simp_all
  have step: "mlir_biquad_process (Some j) (Some b) x = biquad_process (Some b) x"
    using assms u
    by (simp add: mlir_biquad_process_def biquad_process_def biquad_process_at_def
        jit_biquad_process_eq Let_def)
  show ?case
    using Cons.IH [OF n] by (simp add: step biquad_process_Some)
qed

lemma jit_buffer_loop_agrees:
  "length inp - i = n \<Longrightarrow> length outp = length inp \<Longrightarrow> no_underflow b (drop i inp) \<Longrightarrow>
   jit_buffer_loop inp outp (a0 b) (a1 b) (a2 b) (b1 b) (b2 b) i (xz1 b, xz2 b, yz1 b, yz2 b) =
     (take i outp @ fst (process_seq (Some b) (drop i inp)),
      xz1 (the (snd (process_seq (Some b) (drop i inp)))),
      xz2 (the (snd (process_seq (Some b) (drop i inp)))),
      yz1 (the (snd (process_seq (Some b) (drop i inp)))),
      yz2 (the (snd (process_seq (Some b) (drop i inp)))))"
proof (induction n arbitrary: i b outp)
  case 0
  then show ?case by (subst jit_buffer_loop.simps) simp
next
  case (Suc n)
  then have True: "i < length inp" by simp
  let ?x = "inp ! i"
  let ?raw = "a0 b * ?x + a1 b * xz1 b + a2 b * xz2 b - b1 b * yz1 b - b2 b * yz2 b"
  let ?b = "snd (biquad_process_at b ?x)"
  have dr: "drop i inp = ?x # drop (Suc i) inp"
    using True by (simp add: Cons_nth_drop_Suc)
  from Suc.prems(3) have u: "underflow_check ?raw = ?raw"
    and n: "no_underflow ?b (drop (Suc i) inp)" unfolding dr by simp_all
  have y: "fst (biquad_process_at b ?x) = ?raw"
    using u by (simp add: biquad_process_at_def Let_def)
  have co: "a0 ?b = a0 b" "a1 ?b = a1 b" "a2 ?b = a2 b" "b1 ?b = b1 b" "b2 ?b = b2 b"
    by (simp_all add: biquad_process_at_def Let_def)
  have st: "xz1 ?b = ?x" "xz2 ?b = xz1 b" "yz1 ?b = ?raw" "yz2 ?b = yz1 b"
    using y by (simp_all add: biquad_process_at_delays)
  have len: "length (outp[i := ?raw]) = length inp" using Suc.prems(2) by simp
  have k: "length inp - Suc i = n" using Suc.prems(1) by simp
  have io: "i < length outp" using True Suc.prems(2) by simp
  have "jit_buffer_loop inp outp (a0 b) (a1 b) (a2 b) (b1 b) (b2 b) i (xz1 b, xz2 b, yz1 b, yz2 b) =
      jit_buffer_loop inp (outp[i := ?raw]) (a0 b) (a1 b) (a2 b) (b1 b) (b2 b) (Suc i)
        (?x, xz1 b, ?raw, yz1 b)"
    using True by (subst jit_buffer_loop.simps) (simp add: Let_def)
  also have "\<dots> = (take (Suc i) (outp[i := ?raw]) @ fst (process_seq (Some ?b) (drop (Suc i) inp)),
      xz1 (the (snd (process_seq (Some ?b) (drop (Suc i) inp)))),
      xz2 (the (snd (process_seq (Some ?b) (drop (Suc i) inp)))),
      yz1 (the (snd (process_seq (Some ?b) (drop (Suc i) inp)))),
      yz2 (the (snd (process_seq (Some ?b) (drop (Suc i) inp)))))"
    using Suc.IH [OF k len n] by (simp only: co st)
  finally show ?case
    using io y by (simp add: dr biquad_process_Some take_Suc_conv_app_nth)
qed

lemma process_seq_coefficients:
  "snd (process_seq (Some b) xs) = Some b' \<Longrightarrow>
   a0 b' = a0 b \<and> a1 b' = a1 b \<and> a2 b' = a2 b \<and> b1 b' = b1 b \<and> b2 b' = b2 b
   \<and> c0 b' = c0 b \<and> d0 b' = d0 b"
proof (induction xs arbitrary: b)
  case Nil
  then show ?case by simp
next
  case (Cons x xs)
  have co: "a0 (snd (biquad_process_at b x)) = a0 b" "a1 (snd (biquad_process_at b x)) = a1 b"
    "a2 (snd (biquad_process_at b x)) = a2 b" "b1 (snd (biquad_process_at b x)) = b1 b"
    "b2 (snd (biquad_process_at b x)) = b2 b" "c0 (snd (biquad_process_at b x)) = c0 b"
    "d0 (snd (biquad_process_at b x)) = d0 b"
    by (simp_all add: biquad_process_at_def Let_def)
  from Cons.prems have "snd (process_seq (Some (snd (biquad_process_at b x))) xs) = Some b'"
    by (simp add: biquad_process_Some)
  from Cons.IH [OF this] show ?case by (simp add: co)
qed

lemma underflow_check_idem: "underflow_check (underflow_check y) = underflow_check y"
  by (simp add: underflow_check_cases)

lemma process_seq_yz1_clamped:
  "snd (process_seq (Some b) xs) = Some b' \<Longrightarrow> underflow_check (yz1 b) = yz1 b \<Longrightarrow>
   underflow_check (yz1 b') = yz1 b'"
proof (induction xs arbitrary: b)
  case Nil
  then show ?case by simp
next
  case (Cons x xs)
  have c: "underflow_check (yz1 (snd (biquad_process_at b x))) = yz1 (snd (biquad_process_at b x))"
    by (simp add: biquad_process_at_def Let_def underflow_check_idem)
  from Cons.prems have "snd (process_seq (Some (snd (biquad_process_at b x))) xs) = Some b'"
    by (simp add: biquad_process_Some)
  from Cons.IH [OF this c] show ?case .
qed

lemma mlir_biquad_process_buffer_agrees:
  assumes "process_buffer_fn j" and "length outp = length inp" and "no_underflow b inp"
    and "underflow_check (yz1 b) = yz1 b"
  shows "mlir_biquad_process_buffer (Some j) (Some b) (Some inp) (Some outp) =
           (snd (process_seq (Some b) inp), Some (fst (process_seq (Some b) inp)))"
proof -
  obtain b' where b': "snd (process_seq (Some b) inp) = Some b'"
    using process_seq_unit by blast
  note co = process_seq_coefficients [OF b']
  note cl = process_seq_yz1_clamped [OF b' assms(4)]
  have run: "jit_biquad_process_buffer inp outp (a0 b) (a1 b) (a2 b) (b1 b) (b2 b)
      (xz1 b, xz2 b, yz1 b, yz2 b) = (fst (process_seq (Some b) inp), xz1 b', xz2 b', yz1 b', yz2 b')"
    unfolding jit_biquad_process_buffer_def
    using jit_buffer_loop_agrees [of inp 0 "length inp" outp b] assms(2,3) b' by simp
  have eq: "b\<lparr>xz1 := xz1 b', xz2 := xz2 b', yz2 := yz2 b', yz1 := underflow_check (yz1 b')\<rparr> = b'"
    using co cl by (cases b, cases b') simp
  show ?thesis
    using assms(1) run eq b'
    by (simp add: mlir_biquad_process_buffer_def Let_def)
qed

text \<open>
  C8 asks that the per-sample path and the buffer path of the MLIR backend give the
  outputs and the final delays of the scalar unit within \<open>1e-10\<close>. A single call of
  \<open>mlir_biquad_process\<close> returns the sample of the scalar unit but stores the
  unclamped value in \<open>yz1\<close>; the compiled buffer loop never clamps. On the unit with
  \<open>a0 = 1\<close>, \<open>b1 = -1e30\<close> and the inputs \<open>1e-39, 0\<close> the scalar unit returns
  \<open>0, 0\<close>, the per-sample path \<open>0, 1e-9\<close> and the buffer path \<open>1e-39, 1e-9\<close>, with
  \<open>yz1 = 1e-9\<close> against \<open>0\<close>: a difference above \<open>1e-10\<close>.
\<close>

theorem mlir_backend_divergence:
  "process_seq (Some feedback_unit) [1 / 10 ^ 39, 0] =
     ([0, 0], Some (feedback_unit\<lparr>xz1 := 0, xz2 := 1 / 10 ^ 39, yz1 := 0, yz2 := 0\<rparr>))
   \<and> mlir_process_seq (Some full_jit) (Some feedback_unit) [1 / 10 ^ 39, 0] =
     ([0, 1 / 10 ^ 9],
      Some (feedback_unit\<lparr>xz1 := 0, xz2 := 1 / 10 ^ 39, yz1 := 1 / 10 ^ 9, yz2 := 1 / 10 ^ 39\<rparr>))
   \<and> mlir_biquad_process_buffer (Some full_jit) (Some feedback_unit)
        (Some [1 / 10 ^ 39, 0]) (Some [0, 0]) =
     (Some (feedback_unit\<lparr>xz1 := 0, xz2 := 1 / 10 ^ 39, yz1 := 1 / 10 ^ 9, yz2 := 1 / 10 ^ 39\<rparr>),
      Some [1 / 10 ^ 39, 1 / 10 ^ 9])
   \<and> \<bar>1 / 10 ^ 9 - 0\<bar> > (1 / 10 ^ 10 :: real)"
proof -
  have s: "process_seq (Some feedback_unit) [1 / 10 ^ 39, 0] =
     ([0, 0], Some (feedback_unit\<lparr>xz1 := 0, xz2 := 1 / 10 ^ 39, yz1 := 0, yz2 := 0\<rparr>))"
    by (simp add: biquad_process_def biquad_process_at_def feedback_unit_def Let_def
        underflow_check_cases)
  have m: "mlir_process_seq (Some full_jit) (Some feedback_unit) [1 / 10 ^ 39, 0] =
     ([0, 1 / 10 ^ 9],
      Some (feedback_unit\<lparr>xz1 := 0, xz2 := 1 / 10 ^ 39, yz1 := 1 / 10 ^ 9, yz2 := 1 / 10 ^ 39\<rparr>))"
    by (simp add: mlir_biquad_process_def jit_biquad_process_def feedback_unit_def full_jit_def
        Let_def underflow_check_cases)
  have l: "jit_buffer_loop [1 / 10 ^ 39, 0] [0, 0] 1 0 0 (- (10 ^ 30)) 0 0 (0, 0, 0, 0) =
      ([1 / 10 ^ 39, 1 / 10 ^ 9], 0, 1 / 10 ^ 39, 1 / 10 ^ 9, 1 / 10 ^ 39)"
    apply (subst jit_buffer_loop.simps)
    apply (simp add: Let_def)
    apply (subst jit_buffer_loop.simps)
    apply (simp add: Let_def)
    apply (subst jit_buffer_loop.simps)
    apply simp
    done
  have b: "mlir_biquad_process_buffer (Some full_jit) (Some feedback_unit)
        (Some [1 / 10 ^ 39, 0]) (Some [0, 0]) =
     (Some (feedback_unit\<lparr>xz1 := 0, xz2 := 1 / 10 ^ 39, yz1 := 1 / 10 ^ 9, yz2 := 1 / 10 ^ 39\<rparr>),
      Some [1 / 10 ^ 39, 1 / 10 ^ 9])"
    using l
    by (simp add: mlir_biquad_process_buffer_def jit_biquad_process_buffer_def feedback_unit_def
        full_jit_def Let_def underflow_check_cases)
  have d: "\<bar>1 / 10 ^ 9 - 0\<bar> > (1 / 10 ^ 10 :: real)" by simp
  from s m b d show ?thesis by blast
qed

end
